theory Spec2Isabelle
  imports Main "HOL-Library.AList"
begin

section \<open>JavaScript values\<close>

text \<open>
  The server keeps its events as the plain objects that \<^verbatim>\<open>JSON.parse\<close> built from a request
  body or from the data file. A value is therefore a JSON value; a missing property
  (\<^verbatim>\<open>undefined\<close>) is \<open>None\<close> of \<open>json option\<close>. An object is the list of its own properties
  with distinct keys, in creation order (the server looks properties up by name; the order in
  which JavaScript enumerates keys that look like array indices is not modelled). Numbers are
  the integer-valued ones; strings are byte strings.
\<close>

datatype json =
    JNull
  | JBool bool
  | JNum int
  | JStr string
  | JArr "json list"
  | JObj "(string \<times> json) list"

type_synonym jsobj = "(string \<times> json) list"

datatype error = TypeError | RangeError

text \<open>\<^verbatim>\<open>v.k\<close> for the property names the server reads (none of them is \<^verbatim>\<open>length\<close> or an
  index, so a string, an array, a number or a boolean has none of them). Reading a property of
  \<^verbatim>\<open>null\<close> throws; see \<open>getPropT\<close>.\<close>

fun getProp :: "json \<Rightarrow> string \<Rightarrow> json option" where
  "getProp (JObj ps) k = map_of ps k"
| "getProp _ k = None"

fun getPropT :: "json \<Rightarrow> string \<Rightarrow> error + json option" where
  "getPropT JNull k = Inl TypeError"
| "getPropT v k = Inr (getProp v k)"

text \<open>Truthiness of a value that may be \<^verbatim>\<open>undefined\<close>.\<close>

fun truthy :: "json option \<Rightarrow> bool" where
  "truthy None = False"
| "truthy (Some JNull) = False"
| "truthy (Some (JBool b)) = b"
| "truthy (Some (JNum n)) = (n \<noteq> 0)"
| "truthy (Some (JStr s)) = (s \<noteq> [])"
| "truthy (Some (JArr xs)) = True"
| "truthy (Some (JObj ps)) = True"

text \<open>\<^verbatim>\<open>{...a, ...b}\<close>: the properties of \<open>b\<close> are written over \<open>a\<close> one by one; a key that is
  already there keeps its place and takes the new value, a new key goes to the end.\<close>

definition spread :: "jsobj \<Rightarrow> jsobj \<Rightarrow> jsobj" where
  "spread a b = foldl (\<lambda>acc (k, v). AList.update k v acc) a b"

subsection \<open>Numbers and strings\<close>

definition digit_char :: "nat \<Rightarrow> char" where
  "digit_char n = ''0123456789'' ! n"

function digits :: "int \<Rightarrow> string" where
  "digits n =
     (if n < 10 then [digit_char (nat n)]
      else digits (n div 10) @ [digit_char (nat (n mod 10))])"
  by pat_completeness auto
termination
  by (relation "measure nat") auto

text \<open>\<^verbatim>\<open>n.toString()\<close> of an integer-valued number.\<close>

definition numToString :: "int \<Rightarrow> string" where
  "numToString i = (if i < 0 then CHR ''-'' # digits (- i) else digits i)"

fun intercalate :: "string \<Rightarrow> string list \<Rightarrow> string" where
  "intercalate sep [] = []"
| "intercalate sep [x] = x"
| "intercalate sep (x # y # ys) = x @ sep @ intercalate sep (y # ys)"

text \<open>The first error of a list of results, or all the values.\<close>

fun sequenceE :: "(error + 'a) list \<Rightarrow> error + 'a list" where
  "sequenceE [] = Inr []"
| "sequenceE (r # rs) =
     (case r of
        Inl e \<Rightarrow> Inl e
      | Inr x \<Rightarrow> (case sequenceE rs of Inl e \<Rightarrow> Inl e | Inr xs \<Rightarrow> Inr (x # xs)))"

text \<open>\<^verbatim>\<open>String(n)\<close> of a number: its digits below \<open>10\<^sup>2\<^sup>1\<close>, and from there on one digit, the
  further digits up to the last that is not zero, and the exponent. (JavaScript prints the
  shortest digits that read back as the same double; for a number such as \<^verbatim>\<open>1e21\<close> these are
  the digits of the integer.)\<close>

definition stripZeros :: "string \<Rightarrow> string" where
  "stripZeros ds = rev (dropWhile (\<lambda>c. c = CHR ''0'') (rev ds))"

definition exponential :: "int \<Rightarrow> string" where
  "exponential m =
     hd (stripZeros (digits m))
     # (if tl (stripZeros (digits m)) = [] then [] else CHR ''.'' # tl (stripZeros (digits m)))
     @ ''e+'' @ digits (int (length (digits m)) - 1)"

definition numberToString :: "int \<Rightarrow> string" where
  "numberToString n =
     (if \<bar>n\<bar> < 1000000000000000000000 then numToString n
      else (if n < 0 then ''-'' else []) @ exponential \<bar>n\<bar>)"

text \<open>\<^verbatim>\<open>String(v)\<close>, as a template literal and a property key apply it. An array joins its
  elements with commas, \<^verbatim>\<open>null\<close> elements as the empty string. An object is
  \<^verbatim>\<open>[object Object]\<close>, unless it has a property \<^verbatim>\<open>toString\<close> of its own: that is a JSON value
  and no function, \<^verbatim>\<open>valueOf\<close> yields no primitive either, and the conversion throws.\<close>

fun toString :: "json \<Rightarrow> error + string" where
  "toString JNull = Inr ''null''"
| "toString (JBool b) = Inr (if b then ''true'' else ''false'')"
| "toString (JNum n) = Inr (numberToString n)"
| "toString (JStr s) = Inr s"
| "toString (JArr xs) =
     (case sequenceE (map (\<lambda>x. if x = JNull then Inr [] else toString x) xs) of
        Inl e \<Rightarrow> Inl e
      | Inr parts \<Rightarrow> Inr (intercalate '','' parts))"
| "toString (JObj ps) =
     (if ''toString'' \<in> fst ` set ps then Inl TypeError else Inr ''[object Object]'')"

text \<open>The conversion of a value that may be \<^verbatim>\<open>undefined\<close> to a property key.\<close>

definition toKey :: "json option \<Rightarrow> error + string" where
  "toKey v = (case v of None \<Rightarrow> Inr ''undefined'' | Some x \<Rightarrow> toString x)"

text \<open>\<^verbatim>\<open>s.toLowerCase()\<close> belongs to the platform (see \<open>platform\<close>). This is what it does to
  a string of ASCII characters.\<close>

definition lowerChar :: "char \<Rightarrow> char" where
  "lowerChar c =
     (case map_of (zip ''ABCDEFGHIJKLMNOPQRSTUVWXYZ'' ''abcdefghijklmnopqrstuvwxyz'') c of
        None \<Rightarrow> c
      | Some d \<Rightarrow> d)"

definition asciiLowerCase :: "string \<Rightarrow> string" where
  "asciiLowerCase s = map lowerChar s"

text \<open>\<^verbatim>\<open>s.includes(q)\<close>: \<open>q\<close> occurs in \<open>s\<close> as a contiguous substring.\<close>

fun startsWith :: "string \<Rightarrow> string \<Rightarrow> bool" where
  "startsWith s [] = True"
| "startsWith [] (c # q) = False"
| "startsWith (d # s) (c # q) = (d = c \<and> startsWith s q)"

fun str_includes :: "string \<Rightarrow> string \<Rightarrow> bool" where
  "str_includes [] q = (q = [])"
| "str_includes (c # s) q = (startsWith (c # s) q \<or> str_includes s q)"

text \<open>\<^verbatim>\<open>s.padStart(n, '0')\<close>.\<close>

definition padStart :: "nat \<Rightarrow> string \<Rightarrow> string" where
  "padStart n s = replicate (n - length s) CHR ''0'' @ s"

section \<open>Dates\<close>

text \<open>
  A \<^verbatim>\<open>Date\<close> is its time value: milliseconds since the epoch, an integer of absolute value
  at most \<open>maxTime\<close>; \<open>None\<close> is the invalid date (time value \<^verbatim>\<open>NaN\<close>). The server's local
  time zone is taken to be UTC, so that \<^verbatim>\<open>getDate\<close> and \<^verbatim>\<open>setDate\<close> count the days that
  \<^verbatim>\<open>toISOString\<close> prints, and a day is always \<open>msPerDay\<close> long.
\<close>

definition msPerDay :: int where
  "msPerDay = 86400000"

definition maxTime :: int where
  "maxTime = 8640000000000000"

definition timeClip :: "int \<Rightarrow> int option" where
  "timeClip t = (if - maxTime \<le> t \<and> t \<le> maxTime then Some t else None)"

text \<open>Year, month and day of a day number (days since 1970-01-01), proleptic Gregorian.\<close>

definition civil :: "int \<Rightarrow> int \<times> int \<times> int" where
  "civil z0 =
     (let z = z0 + 719468;
          era = z div 146097;
          doe = z mod 146097;
          yoe = (doe - doe div 1460 + doe div 36524 - doe div 146096) div 365;
          doy = doe - (365 * yoe + yoe div 4 - yoe div 100);
          mp = (5 * doy + 2) div 153;
          d = doy - (153 * mp + 2) div 5 + 1;
          m = (if mp < 10 then mp + 3 else mp - 9);
          y = yoe + era * 400
      in (if m \<le> 2 then y + 1 else y, m, d))"

text \<open>The day number of the first day of month \<open>m\<close> (counted from 0, any integer) of year
  \<open>y\<close>, plus \<open>d - 1\<close> days: \<^verbatim>\<open>MakeDay(y, m, d)\<close>.\<close>

definition makeDay :: "int \<Rightarrow> int \<Rightarrow> int \<Rightarrow> int" where
  "makeDay y m d =
     (let ym = y + m div 12;
          mn = m mod 12 + 1;
          y1 = (if mn \<le> 2 then ym - 1 else ym);
          era = y1 div 400;
          yoe = y1 mod 400;
          doy = (153 * (if mn > 2 then mn - 3 else mn + 9) + 2) div 5;
          doe = yoe * 365 + yoe div 4 - yoe div 100 + doy
      in era * 146097 + doe - 719468 + (d - 1))"

definition pad :: "nat \<Rightarrow> int \<Rightarrow> string" where
  "pad n i = padStart n (digits i)"

definition yearString :: "int \<Rightarrow> string" where
  "yearString y =
     (if 0 \<le> y \<and> y \<le> 9999 then pad 4 y
      else (if y < 0 then CHR ''-'' else CHR ''+'') # pad 6 \<bar>y\<bar>)"

definition dateString :: "int \<Rightarrow> string" where
  "dateString day =
     (case civil day of (y, m, d) \<Rightarrow> yearString y @ ''-'' @ pad 2 m @ ''-'' @ pad 2 d)"

text \<open>\<^verbatim>\<open>d.toISOString().split('T')[0]\<close> of a valid date.\<close>

definition isoDate :: "int \<Rightarrow> string" where
  "isoDate t = dateString (t div msPerDay)"

text \<open>\<^verbatim>\<open>d.toISOString()\<close> of a valid date.\<close>

definition toISOString :: "int \<Rightarrow> string" where
  "toISOString t =
     (let r = t mod msPerDay
      in isoDate t @ ''T'' @ pad 2 (r div 3600000) @ '':'' @ pad 2 (r div 60000 mod 60) @ '':''
         @ pad 2 (r div 1000 mod 60) @ ''.'' @ pad 3 (r mod 1000) @ ''Z'')"

section \<open>The event cache\<close>

text \<open>
  \<^verbatim>\<open>DataCache\<close> (src/server.js): \<open>events\<close> is the array of events, \<open>eventsByDate\<close> the plain
  object that maps a date key to the array of events of that date, \<open>webhooks\<close> the array of
  subscriptions. The array \<open>events\<close> is loaded before the server listens and never holds
  \<^verbatim>\<open>null\<close> (\<open>loadEvents\<close> empties it when it meets one). The objects are never changed in
  place, so an event held by both structures is one value. What the platform supplies is a
  parameter: the \<^verbatim>\<open>Date\<close> string parser and \<^verbatim>\<open>Number\<close> on strings (\<open>None\<close> for an
  invalid date and for \<^verbatim>\<open>NaN\<close>), \<^verbatim>\<open>String.prototype.toLowerCase\<close>, the keyed hash and the JSON
  printer.
\<close>

record cache =
  events :: "json list"
  eventsByDate :: "string \<Rightarrow> json list option"
  webhooks :: "json list"
  lastModifiedEvents :: "int option"

record platform =
  dateParse :: "string \<Rightarrow> int option"
  toNumber :: "string \<Rightarrow> int option"
  toLowerCase :: "string \<Rightarrow> string"
  hmacHex :: "string \<Rightarrow> string \<Rightarrow> string"
  stringify :: "json \<Rightarrow> string"

subsection \<open>The date index\<close>

text \<open>\<^verbatim>\<open>eventsByDate\<close> is created as \<^verbatim>\<open>{}\<close>, so reading a key that names a member of
  \<^verbatim>\<open>Object.prototype\<close> yields that member: a truthy value that is no array.\<close>

definition inheritedNames :: "string list" where
  "inheritedNames =
     [''constructor'', ''__defineGetter__'', ''__defineSetter__'', ''hasOwnProperty'',
      ''__lookupGetter__'', ''__lookupSetter__'', ''isPrototypeOf'', ''propertyIsEnumerable'',
      ''toString'', ''valueOf'', ''__proto__'', ''toLocaleString'']"

datatype slot = Absent | Bucket "json list" | Inherited

definition index_get :: "(string \<Rightarrow> json list option) \<Rightarrow> string \<Rightarrow> slot" where
  "index_get idx k =
     (if k \<in> set inheritedNames then Inherited
      else case idx k of None \<Rightarrow> Absent | Some b \<Rightarrow> Bucket b)"

text \<open>\<^verbatim>\<open>if (!idx[k]) idx[k] = []; idx[k].push(e)\<close>\<close>

definition index_push ::
  "string \<Rightarrow> json \<Rightarrow> (string \<Rightarrow> json list option) \<Rightarrow> error + (string \<Rightarrow> json list option)" where
  "index_push k e idx =
     (case index_get idx k of
        Absent \<Rightarrow> Inr (idx(k \<mapsto> [e]))
      | Bucket b \<Rightarrow> Inr (idx(k \<mapsto> b @ [e]))
      | Inherited \<Rightarrow> Inl TypeError)"

text \<open>\<^verbatim>\<open>if (idx[k]) idx[k] = idx[k].filter(e => e.id !== eventId)\<close>\<close>

definition index_remove ::
  "string \<Rightarrow> string \<Rightarrow> (string \<Rightarrow> json list option) \<Rightarrow> error + (string \<Rightarrow> json list option)" where
  "index_remove k eventId idx =
     (case index_get idx k of
        Absent \<Rightarrow> Inr idx
      | Bucket b \<Rightarrow> Inr (idx(k \<mapsto> filter (\<lambda>e. getProp e ''id'' \<noteq> Some (JStr eventId)) b))
      | Inherited \<Rightarrow> Inl TypeError)"

subsection \<open>Webhooks\<close>

text \<open>\<^verbatim>\<open>v.includes(s)\<close>: membership for an array, substring for a string, a
  \<^verbatim>\<open>TypeError\<close> for anything else.\<close>

fun jsIncludes :: "json option \<Rightarrow> string \<Rightarrow> error + bool" where
  "jsIncludes (Some (JArr xs)) s = Inr (JStr s \<in> set xs)"
| "jsIncludes (Some (JStr t)) s = Inr (str_includes t s)"
| "jsIncludes _ s = Inl TypeError"

definition relevant :: "string \<Rightarrow> json \<Rightarrow> error + bool" where
  "relevant eventType w =
     (case getPropT w ''events'' of
        Inl e \<Rightarrow> Inl e
      | Inr ev \<Rightarrow>
          (case jsIncludes ev eventType of
             Inl e \<Rightarrow> Inl e
           | Inr True \<Rightarrow> Inr True
           | Inr False \<Rightarrow> jsIncludes ev ''*''))"

text \<open>\<^verbatim>\<open>xs.filter(p)\<close> for a callback that may throw.\<close>

fun filterE :: "('a \<Rightarrow> error + bool) \<Rightarrow> 'a list \<Rightarrow> error + 'a list" where
  "filterE p [] = Inr []"
| "filterE p (x # xs) =
     (case p x of
        Inl e \<Rightarrow> Inl e
      | Inr b \<Rightarrow>
          (case filterE p xs of
             Inl e \<Rightarrow> Inl e
           | Inr ys \<Rightarrow> Inr (if b then x # ys else ys)))"

text \<open>One call of \<open>callWebhook\<close>: the target it names in its log line, the payload and the
  headers it prepares (the source sends nothing: ``In production, use fetch or axios''), or
  the error its \<^verbatim>\<open>catch\<close> logs. \<^verbatim>\<open>crypto.createHmac\<close> takes a string as key and throws a
  \<^verbatim>\<open>TypeError\<close> for the other values of a JSON file; the template literal of the log line
  converts the target to a string.\<close>

datatype attempt = Delivery string json "(string \<times> string) list" | Failure error

definition payloadOf :: "int \<Rightarrow> string \<Rightarrow> json \<Rightarrow> json" where
  "payloadOf now eventType data =
     JObj [(''event'', JStr eventType), (''data'', data), (''timestamp'', JStr (toISOString now))]"

definition signedHeaders :: "platform \<Rightarrow> json option \<Rightarrow> json \<Rightarrow> error + (string \<times> string) list" where
  "signedHeaders P secret payload =
     (let headers = [(''Content-Type'', ''application/json'')]
      in if truthy secret then
           (case secret of
              Some (JStr k) \<Rightarrow>
                Inr (AList.update ''X-Calendar-Signature'' (hmacHex P k (stringify P payload)) headers)
            | _ \<Rightarrow> Inl TypeError)
         else Inr headers)"

definition callWebhook :: "platform \<Rightarrow> int \<Rightarrow> json \<Rightarrow> string \<Rightarrow> json \<Rightarrow> attempt" where
  "callWebhook P now webhook eventType data =
     (let payload = payloadOf now eventType data
      in case getPropT webhook ''secret'' of
           Inl e \<Rightarrow> Failure e
         | Inr secret \<Rightarrow>
             (case signedHeaders P secret payload of
                Inl e \<Rightarrow> Failure e
              | Inr headers \<Rightarrow>
                  (case toKey (getProp webhook ''url'') of
                     Inl e \<Rightarrow> Failure e
                   | Inr url \<Rightarrow> Delivery url payload headers)))"

text \<open>\<open>triggerWebhooks\<close> is called without \<^verbatim>\<open>await\<close>: an error of its filter is its own
  and does not reach the caller.\<close>

definition triggerWebhooks ::
  "platform \<Rightarrow> int \<Rightarrow> string \<Rightarrow> json \<Rightarrow> cache \<Rightarrow> error + attempt list" where
  "triggerWebhooks P now eventType data s =
     (case filterE (relevant eventType) (webhooks s) of
        Inl e \<Rightarrow> Inl e
      | Inr ws \<Rightarrow> Inr (map (\<lambda>w. callWebhook P now w eventType data) ws))"

subsection \<open>Mutations\<close>

text \<open>
  A mutation returns what the method returns or throws, the cache it leaves, and what its
  call of \<open>triggerWebhooks\<close> did (nothing when the method threw before reaching it). The
  clock is read once per call: \<open>now\<close> is \<^verbatim>\<open>Date.now()\<close>. The broadcast to the WebSocket
  clients and the scheduling of the write touch none of the fields of \<open>cache\<close> and are left
  out.
\<close>

definition defaultNotifications :: json where
  "defaultNotifications =
     JObj [(''push'', JArr [JStr ''15m'']), (''email'', JArr [JStr ''1h'']), (''sms'', JArr [])]"

text \<open>\<^verbatim>\<open>a || b\<close>\<close>

definition orElse :: "json option \<Rightarrow> json \<Rightarrow> json" where
  "orElse a b = (case a of None \<Rightarrow> b | Some v \<Rightarrow> if truthy (Some v) then v else b)"

definition newEventOf :: "int \<Rightarrow> jsobj \<Rightarrow> json" where
  "newEventOf now eventData =
     JObj (AList.update ''notifications'' (orElse (map_of eventData ''notifications'') defaultNotifications)
            (AList.update ''createdAt'' (JStr (toISOString now))
              (spread [(''id'', JStr (numToString now))] eventData)))"

text \<open>What \<^verbatim>\<open>{...v}\<close> copies from a value: the properties of an object, the elements of an
  array and the characters of a string under their indices, nothing from a number, a boolean,
  \<^verbatim>\<open>null\<close> or \<^verbatim>\<open>undefined\<close>.\<close>

definition indexed :: "json list \<Rightarrow> jsobj" where
  "indexed xs = zip (map (\<lambda>i. numToString (int i)) [0..<length xs]) xs"

fun spreadProps :: "json option \<Rightarrow> jsobj" where
  "spreadProps (Some (JObj ps)) = ps"
| "spreadProps (Some (JArr xs)) = indexed xs"
| "spreadProps (Some (JStr cs)) = indexed (map (\<lambda>c. JStr [c]) cs)"
| "spreadProps _ = []"

text \<open>\<open>addEvent(eventData)\<close>. The argument is the request body, or \<^verbatim>\<open>op.body\<close> of a batch
  operation: any JSON value, or \<^verbatim>\<open>undefined\<close>. The object literal reads
  \<^verbatim>\<open>eventData.notifications\<close>, which throws for \<^verbatim>\<open>undefined\<close> and \<^verbatim>\<open>null\<close> before anything is
  stored; \<open>newEventOf\<close> is the literal for the properties that the spread copies. The key
  of the date is computed after the event was pushed.\<close>

definition addEvent ::
  "platform \<Rightarrow> int \<Rightarrow> json option \<Rightarrow> cache
     \<Rightarrow> (error + json) \<times> cache \<times> (error + attempt list)" where
  "addEvent P now eventData s =
     (if eventData = None \<or> eventData = Some JNull then (Inl TypeError, s, Inr [])
      else
        (let newEvent = newEventOf now (spreadProps eventData);
             s1 = s\<lparr>events := events s @ [newEvent]\<rparr>
         in case toKey (getProp newEvent ''date'') of
              Inl e \<Rightarrow> (Inl e, s1, Inr [])
            | Inr k \<Rightarrow>
                (case index_push k newEvent (eventsByDate s1) of
                   Inl e \<Rightarrow> (Inl e, s1, Inr [])
                 | Inr idx \<Rightarrow>
                     (Inr newEvent, s1\<lparr>eventsByDate := idx\<rparr>,
                      triggerWebhooks P now ''event.created'' newEvent s1))))"

text \<open>\<^verbatim>\<open>xs.findIndex(p)\<close>, \<open>None\<close> for \<^verbatim>\<open>-1\<close>.\<close>

fun findIndex :: "('a \<Rightarrow> bool) \<Rightarrow> 'a list \<Rightarrow> nat option" where
  "findIndex p [] = None"
| "findIndex p (x # xs) =
     (if p x then Some 0 else (case findIndex p xs of None \<Rightarrow> None | Some i \<Rightarrow> Some (Suc i)))"

text \<open>\<^verbatim>\<open>e.id === eventId\<close> for the string \<open>eventId\<close> of the route.\<close>

definition hasId :: "string \<Rightarrow> json \<Rightarrow> bool" where
  "hasId eventId e = (getProp e ''id'' = Some (JStr eventId))"

fun ownProps :: "json \<Rightarrow> jsobj" where
  "ownProps (JObj ps) = ps"
| "ownProps _ = []"

fun primitive :: "json option \<Rightarrow> bool" where
  "primitive (Some (JArr xs)) = False"
| "primitive (Some (JObj ps)) = False"
| "primitive _ = True"

text \<open>\<^verbatim>\<open>a === b\<close>: primitives are compared by value, arrays and objects by reference.
  \<open>sameRef\<close> says whether the two sides are the same stored value: a value taken from a
  request body is freshly parsed and is never the stored one.\<close>

definition strictEq :: "bool \<Rightarrow> json option \<Rightarrow> json option \<Rightarrow> bool" where
  "strictEq sameRef a b = (a = b \<and> (sameRef \<or> primitive a))"

text \<open>\<^verbatim>\<open>{...oldEvent, ...updates, id: eventId, updatedAt: ...}\<close>; the copy \<^verbatim>\<open>{...oldEvent}\<close> has
  the properties of \<open>oldEvent\<close> in their order (\<open>oldEvent\<close> has an id, so it is an object).
  The body \<open>updates\<close> of the route is a JSON object.\<close>

definition updatedEventOf :: "int \<Rightarrow> string \<Rightarrow> json \<Rightarrow> jsobj \<Rightarrow> json" where
  "updatedEventOf now eventId oldEvent updates =
     JObj (AList.update ''updatedAt'' (JStr (toISOString now))
            (AList.update ''id'' (JStr eventId)
              (spread (ownProps oldEvent) updates)))"

definition updateEvent ::
  "platform \<Rightarrow> int \<Rightarrow> string \<Rightarrow> jsobj \<Rightarrow> cache
     \<Rightarrow> (error + json option) \<times> cache \<times> (error + attempt list)" where
  "updateEvent P now eventId updates s =
     (case findIndex (hasId eventId) (events s) of
        None \<Rightarrow> (Inr None, s, Inr [])
      | Some i \<Rightarrow>
          (let oldEvent = events s ! i;
               updatedEvent = updatedEventOf now eventId oldEvent updates;
               s1 = s\<lparr>events := (events s)[i := updatedEvent]\<rparr>
           in if \<not> strictEq (map_of updates ''date'' = None)
                      (getProp oldEvent ''date'') (getProp updatedEvent ''date'')
              then
                (case toKey (getProp oldEvent ''date'') of
                   Inl e \<Rightarrow> (Inl e, s1, Inr [])
                 | Inr oldKey \<Rightarrow>
                     (case index_remove oldKey eventId (eventsByDate s1) of
                        Inl e \<Rightarrow> (Inl e, s1, Inr [])
                      | Inr idx1 \<Rightarrow>
                          (case toKey (getProp updatedEvent ''date'') of
                             Inl e \<Rightarrow> (Inl e, s1\<lparr>eventsByDate := idx1\<rparr>, Inr [])
                           | Inr newKey \<Rightarrow>
                               (case index_push newKey updatedEvent idx1 of
                                  Inl e \<Rightarrow> (Inl e, s1\<lparr>eventsByDate := idx1\<rparr>, Inr [])
                                | Inr idx2 \<Rightarrow>
                                    (Inr (Some updatedEvent), s1\<lparr>eventsByDate := idx2\<rparr>,
                                     triggerWebhooks P now ''event.updated'' updatedEvent s1)))))
              else
                (Inr (Some updatedEvent), s1,
                 triggerWebhooks P now ''event.updated'' updatedEvent s1)))"

definition deleteEvent ::
  "platform \<Rightarrow> int \<Rightarrow> string \<Rightarrow> cache \<Rightarrow> (error + bool) \<times> cache \<times> (error + attempt list)" where
  "deleteEvent P now eventId s =
     (case findIndex (hasId eventId) (events s) of
        None \<Rightarrow> (Inr False, s, Inr [])
      | Some i \<Rightarrow>
          (let event = events s ! i;
               s1 = s\<lparr>events := take i (events s) @ drop (Suc i) (events s)\<rparr>
           in case toKey (getProp event ''date'') of
                Inl e \<Rightarrow> (Inl e, s1, Inr [])
              | Inr k \<Rightarrow>
                  (case index_remove k eventId (eventsByDate s1) of
                     Inl e \<Rightarrow> (Inl e, s1, Inr [])
                   | Inr idx \<Rightarrow>
                       (Inr True, s1\<lparr>eventsByDate := idx\<rparr>,
                        triggerWebhooks P now ''event.deleted'' (JObj [(''id'', JStr eventId)]) s1))))"

text \<open>A history of the store: the requests served one after the other, each at its clock
  reading; the body of an addition and of an update is a JSON object. A request that ends in
  an error leaves the cache as its method left it.\<close>

datatype request = Add int jsobj | Update int string jsobj | Delete int string

fun serve :: "platform \<Rightarrow> cache \<Rightarrow> request \<Rightarrow> cache" where
  "serve P s (Add now eventData) = fst (snd (addEvent P now (Some (JObj eventData)) s))"
| "serve P s (Update now eventId updates) = fst (snd (updateEvent P now eventId updates s))"
| "serve P s (Delete now eventId) = fst (snd (deleteEvent P now eventId s))"

definition serveAll :: "platform \<Rightarrow> cache \<Rightarrow> request list \<Rightarrow> cache" where
  "serveAll P s rs = foldl (serve P) s rs"

text \<open>The cache of a server started on an empty data file.\<close>

definition emptyCache :: cache where
  "emptyCache = \<lparr>events = [], eventsByDate = Map.empty, webhooks = [], lastModifiedEvents = None\<rparr>"

subsection \<open>Queries\<close>

text \<open>\<^verbatim>\<open>new Date(s)\<close> for a string and \<^verbatim>\<open>new Date(v)\<close> for a value: a number is the time value,
  \<^verbatim>\<open>null\<close> and a boolean count as numbers, an array or an object is parsed as its string, and
  throws where its conversion to a string throws.\<close>

definition dateOfString :: "platform \<Rightarrow> string \<Rightarrow> int option" where
  "dateOfString P str = (case dateParse P str of None \<Rightarrow> None | Some t \<Rightarrow> timeClip t)"

fun dateOf :: "platform \<Rightarrow> json option \<Rightarrow> error + int option" where
  "dateOf P None = Inr None"
| "dateOf P (Some JNull) = Inr (Some 0)"
| "dateOf P (Some (JBool b)) = Inr (Some (if b then 1 else 0))"
| "dateOf P (Some (JNum n)) = Inr (timeClip n)"
| "dateOf P (Some (JStr str)) = Inr (dateOfString P str)"
| "dateOf P (Some v) =
     (case toString v of Inl e \<Rightarrow> Inl e | Inr str \<Rightarrow> Inr (dateOfString P str))"

text \<open>The loop \<^verbatim>\<open>for (d = start; d <= end; d.setDate(d.getDate() + 1))\<close> over valid dates,
  collecting the bucket of each day. The key of a day never names a member of
  \<^verbatim>\<open>Object.prototype\<close>.\<close>

function walkDays :: "(string \<Rightarrow> json list option) \<Rightarrow> int \<Rightarrow> int \<Rightarrow> json list" where
  "walkDays idx d e =
     (if d \<le> e
      then (case idx (isoDate d) of None \<Rightarrow> [] | Some b \<Rightarrow> b) @ walkDays idx (d + msPerDay) e
      else [])"
  by pat_completeness auto
termination
  by (relation "measure (\<lambda>(idx, d, e). nat (e - d + 1))") (auto simp: msPerDay_def)

definition getEventsInRange :: "platform \<Rightarrow> string \<Rightarrow> string \<Rightarrow> cache \<Rightarrow> json list" where
  "getEventsInRange P startDate endDate s =
     (case (dateOfString P startDate, dateOfString P endDate) of
        (Some d, Some e) \<Rightarrow> walkDays (eventsByDate s) d e
      | _ \<Rightarrow> [])"

text \<open>\<^verbatim>\<open>xs.sort(cmp)\<close>. The sort is stable; for a comparator that orders by a key its
  result is that of insertion sort, and it throws when a call of the comparator throws (with
  two elements or more every element is compared at least once). A comparator result
  \<^verbatim>\<open>NaN\<close> counts as \<open>0\<close>.\<close>

fun insertBy :: "('a \<Rightarrow> 'a \<Rightarrow> error + int) \<Rightarrow> 'a \<Rightarrow> 'a list \<Rightarrow> error + 'a list" where
  "insertBy cmp x [] = Inr [x]"
| "insertBy cmp x (y # ys) =
     (case cmp x y of
        Inl e \<Rightarrow> Inl e
      | Inr c \<Rightarrow>
          if c > 0
          then (case insertBy cmp x ys of Inl e \<Rightarrow> Inl e | Inr zs \<Rightarrow> Inr (y # zs))
          else Inr (x # y # ys))"

fun sortBy :: "('a \<Rightarrow> 'a \<Rightarrow> error + int) \<Rightarrow> 'a list \<Rightarrow> error + 'a list" where
  "sortBy cmp [] = Inr []"
| "sortBy cmp (x # xs) =
     (case sortBy cmp xs of Inl e \<Rightarrow> Inl e | Inr ys \<Rightarrow> insertBy cmp x ys)"

text \<open>\<^verbatim>\<open>(a, b) => new Date(a.date) - new Date(b.date)\<close>\<close>

definition byDate :: "platform \<Rightarrow> json \<Rightarrow> json \<Rightarrow> error + int" where
  "byDate P a b =
     (case dateOf P (getProp a ''date'') of
        Inl e \<Rightarrow> Inl e
      | Inr x \<Rightarrow>
          (case dateOf P (getProp b ''date'') of
             Inl e \<Rightarrow> Inl e
           | Inr y \<Rightarrow> Inr (case (x, y) of (Some t, Some u) \<Rightarrow> t - u | _ \<Rightarrow> 0)))"

text \<open>\<open>getUpcomingEvents(days)\<close> for a whole number of days, at the clock reading \<open>now\<close>.\<close>

definition getUpcomingEvents :: "platform \<Rightarrow> int \<Rightarrow> int \<Rightarrow> cache \<Rightarrow> error + json list" where
  "getUpcomingEvents P now days s =
     sortBy (byDate P)
       (case timeClip (now + days * msPerDay) of
          None \<Rightarrow> []
        | Some e \<Rightarrow> walkDays (eventsByDate s) now e)"

definition getTodayEvents :: "int \<Rightarrow> cache \<Rightarrow> json list" where
  "getTodayEvents now s = (case eventsByDate s (isoDate now) of None \<Rightarrow> [] | Some b \<Rightarrow> b)"

text \<open>The callback of \<open>searchEvents\<close>: \<^verbatim>\<open>toLowerCase\<close> exists on strings only.\<close>

definition typeMatches :: "platform \<Rightarrow> string \<Rightarrow> json \<Rightarrow> error + bool" where
  "typeMatches P lowerQuery event =
     (case getProp event ''type'' of
        Some (JStr ty) \<Rightarrow> Inr (str_includes (toLowerCase P ty) lowerQuery)
      | _ \<Rightarrow> Inl TypeError)"

definition descriptionMatches :: "platform \<Rightarrow> string \<Rightarrow> json \<Rightarrow> error + bool" where
  "descriptionMatches P lowerQuery event =
     (if truthy (getProp event ''description'') then
        (case getProp event ''description'' of
           Some (JStr d) \<Rightarrow> Inr (str_includes (toLowerCase P d) lowerQuery)
         | _ \<Rightarrow> Inl TypeError)
      else Inr False)"

definition searchMatches :: "platform \<Rightarrow> string \<Rightarrow> json \<Rightarrow> error + bool" where
  "searchMatches P lowerQuery event =
     (case getProp event ''title'' of
        Some (JStr t) \<Rightarrow>
          if str_includes (toLowerCase P t) lowerQuery then Inr True
          else (case descriptionMatches P lowerQuery event of
                  Inl e \<Rightarrow> Inl e
                | Inr True \<Rightarrow> Inr True
                | Inr False \<Rightarrow> typeMatches P lowerQuery event)
      | _ \<Rightarrow> Inl TypeError)"

definition searchEvents :: "platform \<Rightarrow> string \<Rightarrow> cache \<Rightarrow> error + json list" where
  "searchEvents P query s = filterE (searchMatches P (toLowerCase P query)) (events s)"

definition getEventsByType :: "string \<Rightarrow> cache \<Rightarrow> json list" where
  "getEventsByType ty s = filter (\<lambda>event. getProp event ''type'' = Some (JStr ty)) (events s)"





subsection \<open>The listing of \<^verbatim>\<open>GET /api/events\<close>\<close>

text \<open>The query parameters are strings or absent; \<open>q_limit\<close> and \<open>q_offset\<close> are
  \<^verbatim>\<open>Number(limit)\<close> and \<^verbatim>\<open>Number(offset)\<close> with the defaults 100 and 0 applied, whole numbers or
  \<open>None\<close> for \<^verbatim>\<open>NaN\<close>. An error is the answer 500 of the handler's \<^verbatim>\<open>catch\<close>.\<close>

record query =
  q_start :: "string option"
  q_end :: "string option"
  q_month :: "string option"
  q_year :: "string option"
  q_type :: "string option"
  q_search :: "string option"
  q_limit :: "int option"
  q_offset :: "int option"

record listing =
  l_events :: "json list"
  l_total :: nat
  l_limit :: "int option"
  l_offset :: "int option"
  l_hasMore :: bool

text \<open>A parameter that is present and not the empty string.\<close>

fun given :: "string option \<Rightarrow> string option" where
  "given (Some (c # cs)) = Some (c # cs)"
| "given _ = None"

text \<open>\<^verbatim>\<open>xs.slice(a, b)\<close>; \<^verbatim>\<open>NaN\<close> counts as \<open>0\<close>, a negative bound counts from the end.\<close>

definition sliceBound :: "nat \<Rightarrow> int option \<Rightarrow> nat" where
  "sliceBound len a =
     (case a of
        None \<Rightarrow> 0
      | Some i \<Rightarrow> if i < 0 then nat (max (int len + i) 0) else nat (min i (int len)))"

definition slice :: "int option \<Rightarrow> int option \<Rightarrow> 'a list \<Rightarrow> 'a list" where
  "slice a b xs =
     (let k = sliceBound (length xs) a; fin = sliceBound (length xs) b
      in take (fin - k) (drop k xs))"

definition plus_num :: "int option \<Rightarrow> int option \<Rightarrow> int option" where
  "plus_num a b = (case (a, b) of (Some x, Some y) \<Rightarrow> Some (x + y) | _ \<Rightarrow> None)"

text \<open>\<^verbatim>\<open>new Date(year, month, 0)\<close>: the day before the first day of month \<open>month\<close> counted
  from 0, which is the last day of month \<open>month\<close> counted from 1.\<close>

definition monthEnd :: "platform \<Rightarrow> string \<Rightarrow> string \<Rightarrow> int option" where
  "monthEnd P year month =
     (case (toNumber P year, toNumber P month) of
        (Some y, Some m) \<Rightarrow>
          timeClip (makeDay (if 0 \<le> y \<and> y \<le> 99 then 1900 + y else y) m 0 * msPerDay)
      | _ \<Rightarrow> None)"

definition rangeOf :: "platform \<Rightarrow> query \<Rightarrow> cache \<Rightarrow> error + json list" where
  "rangeOf P q s =
     (case (given (q_start q), given (q_end q)) of
        (Some a, Some b) \<Rightarrow> Inr (getEventsInRange P a b s)
      | _ \<Rightarrow>
          (case (given (q_month q), given (q_year q)) of
             (Some month, Some year) \<Rightarrow>
               (case monthEnd P year month of
                  None \<Rightarrow> Inl RangeError
                | Some t \<Rightarrow>
                    Inr (getEventsInRange P (year @ ''-'' @ padStart 2 month @ ''-01'') (isoDate t) s))
           | _ \<Rightarrow> Inr (events s)))"

definition listEvents :: "platform \<Rightarrow> query \<Rightarrow> cache \<Rightarrow> error + listing" where
  "listEvents P q s =
     (case rangeOf P q s of
        Inl e \<Rightarrow> Inl e
      | Inr ranged \<Rightarrow>
          (let typed = (case given (q_type q) of
                          None \<Rightarrow> ranged
                        | Some ty \<Rightarrow> filter (\<lambda>e. getProp e ''type'' = Some (JStr ty)) ranged)
           in case (case given (q_search q) of
                      None \<Rightarrow> Inr typed
                    | Some search \<Rightarrow> searchEvents P search s) of
                Inl e \<Rightarrow> Inl e
              | Inr found \<Rightarrow>
                  Inr \<lparr>l_events = slice (q_offset q) (plus_num (q_offset q) (q_limit q)) found,
                       l_total = length found,
                       l_limit = q_limit q,
                       l_offset = q_offset q,
                       l_hasMore = (case plus_num (q_offset q) (q_limit q) of
                                      None \<Rightarrow> False
                                    | Some n \<Rightarrow> int (length found) > n)\<rparr>))"

subsection \<open>The data file\<close>




section \<open>Properties of a cache\<close>

text \<open>The key under which the index files an event, or the error of its computation. An
  event can be filed when its date has a key and the key names no member of
  \<^verbatim>\<open>Object.prototype\<close>.\<close>

definition dateKey :: "json \<Rightarrow> error + string" where
  "dateKey event = toKey (getProp event ''date'')"

definition fileable :: "json \<Rightarrow> bool" where
  "fileable event =
     (case dateKey event of Inl e \<Rightarrow> False | Inr k \<Rightarrow> k \<notin> set inheritedNames)"

text \<open>Every bucket holds events of its own date only.\<close>

definition index_keyed :: "(string \<Rightarrow> json list option) \<Rightarrow> bool" where
  "index_keyed idx = (\<forall>k b. idx k = Some b \<longrightarrow> (\<forall>e \<in> set b. dateKey e = Inr k))"


definition eventIds :: "cache \<Rightarrow> json option list" where
  "eventIds s = map (\<lambda>e. getProp e ''id'') (events s)"

text \<open>The clock readings of the \<open>Add\<close> requests of a history, and whether the fields of
  each \<open>Add\<close> leave the id to the server.\<close>

fun addTimes :: "request list \<Rightarrow> int list" where
  "addTimes [] = []"
| "addTimes (Add now eventData # rs) = now # addTimes rs"
| "addTimes (r # rs) = addTimes rs"

fun noIdGiven :: "request \<Rightarrow> bool" where
  "noIdGiven (Add now eventData) = (''id'' \<notin> fst ` set eventData)"
| "noIdGiven r = True"


fun isString :: "json option \<Rightarrow> bool" where
  "isString (Some (JStr str)) = True"
| "isString _ = False"

section \<open>Example data\<close>

text \<open>A platform for the example runs: its date parser reads the two forms
  \<^verbatim>\<open>YYYY-MM-DD\<close> (midnight UTC) and \<^verbatim>\<open>YYYY-MM-DDTHH:MM\<close> (local time) and nothing else, its
  \<^verbatim>\<open>Number\<close> reads unsigned decimal numerals, its \<^verbatim>\<open>toLowerCase\<close> lowers the ASCII letters,
  its hash only names its arguments, and its printer writes JSON without escapes.\<close>

definition digitValue :: "char \<Rightarrow> int option" where
  "digitValue c = map_of (zip ''0123456789'' [0, 1, 2, 3, 4, 5, 6, 7, 8, 9]) c"

definition numeral_of :: "string \<Rightarrow> int option" where
  "numeral_of cs =
     (if cs = [] then None
      else foldl (\<lambda>acc c. case (acc, digitValue c) of
                               (Some a, Some d) \<Rightarrow> Some (10 * a + d)
                             | _ \<Rightarrow> None) (Some 0) cs)"

definition isoDay :: "string \<Rightarrow> int option" where
  "isoDay str =
     (case (numeral_of (take 4 str), numeral_of (take 2 (drop 5 str)), numeral_of (take 2 (drop 8 str))) of
        (Some y, Some m, Some d) \<Rightarrow>
          if dateString (makeDay y (m - 1) d) = take 10 str then Some (makeDay y (m - 1) d) else None
      | _ \<Rightarrow> None)"

definition isoParse :: "string \<Rightarrow> int option" where
  "isoParse str =
     (case isoDay str of
        None \<Rightarrow> None
      | Some z \<Rightarrow>
          if length str = 10 then Some (z * msPerDay)
          else if length str = 16 \<and> str ! 10 = CHR ''T'' \<and> str ! 13 = CHR '':'' then
            (case (numeral_of (take 2 (drop 11 str)), numeral_of (drop 14 str)) of
               (Some h, Some mi) \<Rightarrow>
                 if h < 24 \<and> mi < 60 then Some (z * msPerDay + h * 3600000 + mi * 60000) else None
             | _ \<Rightarrow> None)
          else None)"

fun printJson :: "json \<Rightarrow> string" where
  "printJson JNull = ''null''"
| "printJson (JBool b) = (if b then ''true'' else ''false'')"
| "printJson (JNum n) = numToString n"
| "printJson (JStr str) = CHR 0x22 # str @ [CHR 0x22]"
| "printJson (JArr xs) = ''['' @ intercalate '','' (map printJson xs) @ '']''"
| "printJson (JObj ps) =
     ''{'' @ intercalate '','' (map (\<lambda>p. CHR 0x22 # fst p @ [CHR 0x22] @ '':'' @ printJson (snd p)) ps) @ ''}''"

definition testPlatform :: platform where
  "testPlatform =
     \<lparr>dateParse = isoParse, toNumber = numeral_of, toLowerCase = asciiLowerCase,
      hmacHex = (\<lambda>key msg. ''hmac-sha256('' @ key @ '','' @ msg @ '')''),
      stringify = printJson\<rparr>"

definition syncFields :: jsobj where
  "syncFields =
     [(''title'', JStr ''Sync''), (''date'', JStr ''2024-01-20''), (''time'', JStr ''14:00''),
      (''type'', JStr ''meeting'')]"

definition lunchFields :: jsobj where
  "lunchFields =
     [(''title'', JStr ''Sync lunch''), (''date'', JStr ''2024-01-21''), (''time'', JStr ''12:30''),
      (''type'', JStr ''social'')]"

text \<open>The event that \<open>addEvent\<close> makes of \<open>syncFields\<close> at the clock reading
  \<open>1705000000000\<close>, and the cache of a server that has stored it and nothing else.\<close>

definition syncEvent :: json where
  "syncEvent =
     JObj [(''id'', JStr ''1705000000000''), (''title'', JStr ''Sync''),
           (''date'', JStr ''2024-01-20''), (''time'', JStr ''14:00''), (''type'', JStr ''meeting''),
           (''createdAt'', JStr ''2024-01-11T19:06:40.000Z''),
           (''notifications'', defaultNotifications)]"

definition syncCache :: cache where
  "syncCache =
     \<lparr>events = [syncEvent], eventsByDate = [''2024-01-20'' \<mapsto> [syncEvent]], webhooks = [],
      lastModifiedEvents = None\<rparr>"

text \<open>The event after the update of its title at \<open>1705000000500\<close>; the event that
  \<open>addEvent\<close> makes of \<open>lunchFields\<close> one millisecond after \<open>syncEvent\<close>; the event it makes of
  no fields at all; an event with a number as description.\<close>

definition syncEventV2 :: json where
  "syncEventV2 =
     JObj [(''id'', JStr ''1705000000000''), (''title'', JStr ''Sync v2''),
           (''date'', JStr ''2024-01-20''), (''time'', JStr ''14:00''), (''type'', JStr ''meeting''),
           (''createdAt'', JStr ''2024-01-11T19:06:40.000Z''),
           (''notifications'', defaultNotifications),
           (''updatedAt'', JStr ''2024-01-11T19:06:40.500Z'')]"

definition lunchEvent :: json where
  "lunchEvent =
     JObj [(''id'', JStr ''1705000000001''), (''title'', JStr ''Sync lunch''),
           (''date'', JStr ''2024-01-21''), (''time'', JStr ''12:30''), (''type'', JStr ''social''),
           (''createdAt'', JStr ''2024-01-11T19:06:40.001Z''),
           (''notifications'', defaultNotifications)]"

definition blankEvent :: json where
  "blankEvent =
     JObj [(''id'', JStr ''1705000000000''), (''createdAt'', JStr ''2024-01-11T19:06:40.000Z''),
           (''notifications'', defaultNotifications)]"

definition numberedEvent :: json where
  "numberedEvent =
     JObj [(''id'', JStr ''1705000000002''), (''title'', JStr ''Retro''), (''date'', JStr ''2024-01-22''),
           (''type'', JStr ''meeting''), (''description'', JNum 5)]"

text \<open>The cache after \<open>syncFields\<close> and \<open>lunchFields\<close> were added, and the query
  \<^verbatim>\<open>GET /api/events?type=meeting&search=sync\<close>.\<close>

definition twoCache :: cache where
  "twoCache =
     \<lparr>events = [syncEvent, lunchEvent],
      eventsByDate = [''2024-01-20'' \<mapsto> [syncEvent], ''2024-01-21'' \<mapsto> [lunchEvent]],
      webhooks = [], lastModifiedEvents = None\<rparr>"

definition meetingSyncQuery :: query where
  "meetingSyncQuery =
     \<lparr>q_start = None, q_end = None, q_month = None, q_year = None, q_type = Some ''meeting'',
      q_search = Some ''sync'', q_limit = Some 100, q_offset = Some 0\<rparr>"

text \<open>An event without a type; an event whose date is an object with a property
  \<^verbatim>\<open>toString\<close>, as \<^verbatim>\<open>POST /api/events\<close> stores it before it fails on the key of the date.\<close>

definition untypedEvent :: json where
  "untypedEvent =
     JObj [(''id'', JStr ''1705000000003''), (''title'', JStr ''Retro''), (''date'', JStr ''2024-01-22'')]"











text \<open>The claim of the specification about the index: every stored event is in the bucket of
  its date, and the buckets hold stored events only, each under its own date and once.\<close>

definition index_agrees :: "cache \<Rightarrow> bool" where
  "index_agrees s =
     ((\<forall>e \<in> set (events s). \<exists>k b. dateKey e = Inr k \<and> eventsByDate s k = Some b \<and> e \<in> set b)
      \<and> (\<forall>k b. eventsByDate s k = Some b \<longrightarrow>
             distinct b \<and> (\<forall>e \<in> set b. e \<in> set (events s) \<and> dateKey e = Inr k)))"

section \<open>Lemmas\<close>

subsection \<open>Arrays and objects\<close>

lemma findIndex_None: "findIndex p xs = None \<longleftrightarrow> (\<forall>x\<in>set xs. \<not> p x)"
  by (induction xs) (auto split: option.splits)

lemma findIndex_Some:
  "findIndex p xs = Some i \<Longrightarrow> i < length xs \<and> p (xs ! i) \<and> (\<forall>j<i. \<not> p (xs ! j))"
proof (induction xs arbitrary: i)
  case Nil
  then show ?case by simp
next
  case (Cons x xs)
  show ?case
  proof (cases "p x")
    case True
    with Cons.prems show ?thesis by simp
  next
    case False
    with Cons.prems obtain n where n: "findIndex p xs = Some n" "i = Suc n"
      by (auto split: option.splits)
    from Cons.IH[OF n(1)] False n(2) show ?thesis
      by (auto simp: nth_Cons split: nat.splits)
  qed
qed

lemma map_of_spread:
  "map_of (spread a b) k = (case map_of (rev b) k of None \<Rightarrow> map_of a k | Some v \<Rightarrow> Some v)"
  unfolding spread_def
proof (induction b arbitrary: a)
  case Nil
  then show ?case by simp
next
  case (Cons p b)
  obtain k' v' where p: "p = (k', v')" by (cases p)
  show ?case
    by (simp add: p Cons.IH update_conv' map_add_def split: option.splits)
qed

lemma map_of_rev_distinct: "distinct (map fst b) \<Longrightarrow> map_of (rev b) = map_of b"
proof (induction b)
  case Nil
  then show ?case by simp
next
  case (Cons p b)
  obtain k v where p: "p = (k, v)" by (cases p)
  from Cons.prems p have notin: "k \<notin> fst ` set b" by simp
  then have "map_of b k = None" by (simp add: map_of_eq_None_iff)
  with Cons p show ?case
    by (auto simp: map_add_def fun_eq_iff split: option.splits)
qed

lemma map_of_spread_distinct:
  "distinct (map fst b) \<Longrightarrow>
   map_of (spread a b) k = (case map_of b k of None \<Rightarrow> map_of a k | Some v \<Rightarrow> Some v)"
  by (simp add: map_of_spread map_of_rev_distinct)

lemma map_of_spread_notin:
  "k \<notin> fst ` set b \<Longrightarrow> map_of (spread a b) k = map_of a k"
  by (simp add: map_of_spread map_of_eq_None_iff[THEN iffD2])

lemma hasId_obj: "hasId eventId e \<Longrightarrow> \<exists>ps. e = JObj ps"
  by (cases e) (simp_all add: hasId_def)

lemma getProp_ownProps: "hasId eventId e \<Longrightarrow> map_of (ownProps e) k = getProp e k"
  by (cases e) (simp_all add: hasId_def)

lemma getProp_updatedEventOf:
  assumes "distinct (map fst updates)" and "hasId eventId old"
  shows "getProp (updatedEventOf now eventId old updates) k =
           (if k = ''updatedAt'' then Some (JStr (toISOString now))
            else if k = ''id'' then Some (JStr eventId)
            else case map_of updates k of None \<Rightarrow> getProp old k | Some v \<Rightarrow> Some v)"
  using assms(1)
  by (simp add: updatedEventOf_def update_conv' map_of_spread_distinct
        getProp_ownProps[OF assms(2)] split: option.splits)

lemma events_updateEvent:
  "events (fst (snd (updateEvent P now eventId updates s))) =
     (case findIndex (hasId eventId) (events s) of
        None \<Rightarrow> events s
      | Some i \<Rightarrow> (events s)[i := updatedEventOf now eventId (events s ! i) updates])"
  by (simp add: updateEvent_def Let_def split: option.splits sum.splits)

lemma events_addEvent:
  "events (fst (snd (addEvent P now (Some (JObj eventData)) s))) = events s @ [newEventOf now eventData]"
  by (simp add: addEvent_def Let_def split: sum.splits)

lemma events_deleteEvent:
  "events (fst (snd (deleteEvent P now eventId s))) =
     (case findIndex (hasId eventId) (events s) of
        None \<Rightarrow> events s
      | Some i \<Rightarrow> take i (events s) @ drop (Suc i) (events s))"
  by (simp add: deleteEvent_def Let_def split: option.splits sum.splits)

subsection \<open>The mutations\<close>

lemma index_push_ok:
  "k \<notin> set inheritedNames \<Longrightarrow>
   index_push k e idx = Inr (idx(k \<mapsto> (case idx k of None \<Rightarrow> [] | Some b \<Rightarrow> b) @ [e]))"
  by (simp add: index_push_def index_get_def split: option.splits)

lemma index_remove_ok:
  "k \<notin> set inheritedNames \<Longrightarrow>
   index_remove k eventId idx =
     Inr (case idx k of None \<Rightarrow> idx | Some b \<Rightarrow> idx(k \<mapsto> filter (\<lambda>e. \<not> hasId eventId e) b))"
  by (simp add: index_remove_def index_get_def hasId_def split: option.splits)

lemma index_push_cases: "index_push k e idx = Inl err \<Longrightarrow> err = TypeError"
  by (simp add: index_push_def split: slot.splits)

lemma index_remove_cases: "index_remove k eventId idx = Inl err \<Longrightarrow> err = TypeError"
  by (simp add: index_remove_def split: slot.splits)

lemma updateEvent_absent:
  "\<forall>e\<in>set (events s). \<not> hasId eventId e \<Longrightarrow>
   updateEvent P now eventId updates s = (Inr None, s, Inr [])"
  by (simp add: updateEvent_def findIndex_None[THEN iffD2])

lemma sequenceE_error: "sequenceE rs = Inl e \<Longrightarrow> Inl e \<in> set rs"
  by (induction rs) (auto split: sum.splits)

lemma toString_error: "toString v = Inl e \<Longrightarrow> e = TypeError"
proof (induction v rule: toString.induct)
  case (5 xs)
  from "5.prems" have "sequenceE (map (\<lambda>x. if x = JNull then Inr [] else toString x) xs) = Inl e"
    by (simp split: sum.splits)
  then have "Inl e \<in> set (map (\<lambda>x. if x = JNull then Inr [] else toString x) xs)"
    by (rule sequenceE_error)
  then obtain x where "x \<in> set xs" "x \<noteq> JNull" "toString x = Inl e"
    by (auto split: if_splits)
  with "5.IH" show ?case by blast
qed (simp_all split: if_splits)

lemma toKey_error: "toKey v = Inl e \<Longrightarrow> e = TypeError"
  by (cases v) (auto simp: toKey_def dest: toString_error)

lemma updateEvent_result:
  assumes "findIndex (hasId eventId) (events s) = Some i"
  shows "fst (updateEvent P now eventId updates s) =
           Inr (Some (updatedEventOf now eventId (events s ! i) updates))
         \<or> fst (updateEvent P now eventId updates s) = Inl TypeError"
  using assms
  by (auto simp: updateEvent_def Let_def split: sum.splits
      dest: index_push_cases index_remove_cases toKey_error)

lemma updateEvent_returns:
  assumes "findIndex (hasId eventId) (events s) = Some i"
    and "fileable (events s ! i)"
    and "fileable (updatedEventOf now eventId (events s ! i) updates)"
  shows "fst (updateEvent P now eventId updates s) =
           Inr (Some (updatedEventOf now eventId (events s ! i) updates))"
  using assms
  by (auto simp: updateEvent_def Let_def fileable_def dateKey_def index_push_ok index_remove_ok
      split: sum.splits)

subsection \<open>The example run\<close>

lemma newEventOf_syncFields: "newEventOf 1705000000000 syncFields = syncEvent"
  by code_simp

lemma dateKey_syncEvent: "dateKey syncEvent = Inr ''2024-01-20''"
  by code_simp

lemma addEvent_syncFields:
  "addEvent P 1705000000000 (Some (JObj syncFields)) emptyCache = (Inr syncEvent, syncCache, Inr [])"
  using dateKey_syncEvent
  by (simp add: addEvent_def newEventOf_syncFields Let_def emptyCache_def index_push_def
        index_get_def inheritedNames_def dateKey_def triggerWebhooks_def syncCache_def)

lemma newEventOf_lunchFields: "newEventOf 1705000000001 lunchFields = lunchEvent"
  by code_simp


lemma updatedEventOf_syncEvent:
  "updatedEventOf 1705000000500 ''1705000000000'' syncEvent [(''title'', JStr ''Sync v2'')] = syncEventV2"
  by code_simp

lemma dateKey_examples:
  "dateKey syncEventV2 = Inr ''2024-01-20''" "dateKey lunchEvent = Inr ''2024-01-21''"
  "dateKey blankEvent = Inr ''undefined''" "dateKey numberedEvent = Inr ''2024-01-22''"
  by code_simp+

lemma date_examples:
  "getProp syncEvent ''date'' = Some (JStr ''2024-01-20'')"
  "getProp syncEventV2 ''date'' = Some (JStr ''2024-01-20'')"
  "getProp lunchEvent ''date'' = Some (JStr ''2024-01-21'')"
  by code_simp+

lemma hasId_syncEvent: "hasId ''1705000000000'' syncEvent"
  by code_simp

lemma findIndex_syncEvent: "findIndex (hasId ''1705000000000'') (syncEvent # xs) = Some 0"
  by (simp add: hasId_syncEvent)

lemma updateEvent_syncTitle:
  "updateEvent P 1705000000500 ''1705000000000'' [(''title'', JStr ''Sync v2'')] syncCache =
     (Inr (Some syncEventV2),
      syncCache\<lparr>events := [syncEventV2]\<rparr>, Inr [])"
  by (simp add: updateEvent_def syncCache_def findIndex_syncEvent updatedEventOf_syncEvent Let_def
        strictEq_def triggerWebhooks_def date_examples hasId_syncEvent)

lemma serveAll_add_update:
  "serveAll P emptyCache
     [Add 1705000000000 syncFields,
      Update 1705000000500 ''1705000000000'' [(''title'', JStr ''Sync v2'')]]
   = syncCache\<lparr>events := [syncEventV2]\<rparr>"
  by (simp add: serveAll_def addEvent_syncFields updateEvent_syncTitle)

lemma syncEvent_neq: "syncEvent \<noteq> syncEventV2"
  by (simp add: syncEvent_def syncEventV2_def)

lemma addEvent_ok:
  assumes "dateKey (newEventOf now eventData) = Inr k" and "k \<notin> set inheritedNames"
  shows "addEvent P now (Some (JObj eventData)) s =
           (Inr (newEventOf now eventData),
            s\<lparr>events := events s @ [newEventOf now eventData],
              eventsByDate := (eventsByDate s)
                (k \<mapsto> (case eventsByDate s k of None \<Rightarrow> [] | Some b \<Rightarrow> b)
                       @ [newEventOf now eventData])\<rparr>,
            triggerWebhooks P now ''event.created'' (newEventOf now eventData) s)"
  using assms
  by (simp add: addEvent_def Let_def dateKey_def index_push_ok triggerWebhooks_def)



lemma filterE_Inr:
  "\<forall>x\<in>set xs. \<exists>b. p x = Inr b \<Longrightarrow> filterE p xs = Inr (filter (\<lambda>x. p x = Inr True) xs)"
proof (induction xs)
  case Nil
  then show ?case by simp
next
  case (Cons x xs)
  then obtain b where "p x = Inr b" by auto
  with Cons show ?case by (cases b) auto
qed

lemma filterE_Inl:
  "\<exists>x\<in>set xs. p x = Inl TypeError \<Longrightarrow> \<forall>x\<in>set xs. p x \<noteq> Inl RangeError \<Longrightarrow>
   filterE p xs = Inl TypeError"
proof (induction xs)
  case Nil
  then show ?case by simp
next
  case (Cons x xs)
  show ?case
  proof (cases "p x")
    case (Inl e)
    with Cons.prems(2) have "e = TypeError" by (cases e) auto
    with Inl show ?thesis by simp
  next
    case (Inr b)
    with Cons.prems have "\<exists>x\<in>set xs. p x = Inl TypeError" by auto
    with Cons.IH Cons.prems(2) have "filterE p xs = Inl TypeError" by simp
    with Inr show ?thesis by simp
  qed
qed

lemma searchMatches_error: "searchMatches P q e = Inl err \<Longrightarrow> err = TypeError"
  by (auto simp: searchMatches_def descriptionMatches_def typeMatches_def
      split: option.splits json.splits if_splits sum.splits bool.splits)

lemma searchMatches_total:
  assumes "isString (getProp e ''title'')" "isString (getProp e ''type'')"
    and "\<not> truthy (getProp e ''description'') \<or> isString (getProp e ''description'')"
  shows "\<exists>b. searchMatches P q e = Inr b"
proof -
  from assms(1) obtain t where t: "getProp e ''title'' = Some (JStr t)"
    by (cases "getProp e ''title''" rule: isString.cases) auto
  from assms(2) obtain ty where ty: "getProp e ''type'' = Some (JStr ty)"
    by (cases "getProp e ''type''" rule: isString.cases) auto
  from assms(3) have "\<exists>b. descriptionMatches P q e = Inr b"
    by (cases "getProp e ''description''" rule: isString.cases) (auto simp: descriptionMatches_def)
  then obtain b where "descriptionMatches P q e = Inr b" ..
  then show ?thesis
    by (cases b) (auto simp: searchMatches_def typeMatches_def t ty)
qed

lemma searchMatches_title: "\<not> isString (getProp e ''title'') \<Longrightarrow> searchMatches P q e = Inl TypeError"
  by (cases "getProp e ''title''" rule: isString.cases) (auto simp: searchMatches_def)

lemma addEvent_lunchFields:
  "addEvent P 1705000000001 (Some (JObj lunchFields)) syncCache = (Inr lunchEvent, twoCache, Inr [])"
  by (simp add: addEvent_ok[where k = "''2024-01-21''"] newEventOf_lunchFields dateKey_examples
        inheritedNames_def syncCache_def twoCache_def triggerWebhooks_def fun_upd_twist)

lemma serveAll_two:
  "serveAll P emptyCache [Add 1705000000000 syncFields, Add 1705000000001 lunchFields] = twoCache"
  by (simp add: serveAll_def addEvent_syncFields addEvent_lunchFields)

subsection \<open>Decimal numerals\<close>

declare digits.simps [simp del]

lemma digit_char_inj: "m < 10 \<Longrightarrow> n < 10 \<Longrightarrow> digit_char m = digit_char n \<Longrightarrow> m = n"
  unfolding digit_char_def
  by (subst (asm) nth_eq_iff_index_eq) simp_all

lemma digit_char_not_minus: "n < 10 \<Longrightarrow> digit_char n \<noteq> CHR ''-''"
proof -
  assume "n < 10"
  then have "digit_char n \<in> set ''0123456789''"
    unfolding digit_char_def by (intro nth_mem) simp
  then show ?thesis by auto
qed

lemma digits_nonempty: "digits n \<noteq> []"
  by (subst digits.simps) simp

lemma digits_inj: "0 \<le> m \<Longrightarrow> 0 \<le> n \<Longrightarrow> digits m = digits n \<Longrightarrow> m = n"
proof (induction m arbitrary: n rule: digits.induct)
  case (1 m)
  show ?case
  proof (cases "m < 10")
    case True
    with "1.prems" have dm: "digits m = [digit_char (nat m)]"
      by (subst digits.simps) simp
    show ?thesis
    proof (cases "n < 10")
      case True
      with "1.prems" dm \<open>m < 10\<close> have "digit_char (nat m) = digit_char (nat n)"
        by (subst (asm) (2) digits.simps) simp
      with True \<open>m < 10\<close> "1.prems" have "nat m = nat n"
        by (intro digit_char_inj) simp_all
      with "1.prems" show ?thesis by simp
    next
      case False
      with "1.prems" dm have "digits (n div 10) = []"
        by (subst (asm) (2) digits.simps) simp
      with digits_nonempty show ?thesis by blast
    qed
  next
    case False
    then have dm: "digits m = digits (m div 10) @ [digit_char (nat (m mod 10))]"
      by (subst digits.simps) simp
    show ?thesis
    proof (cases "n < 10")
      case True
      with "1.prems" dm have "digits (m div 10) = []"
        by (subst (asm) (2) digits.simps) simp
      with digits_nonempty show ?thesis by blast
    next
      case n: False
      then have dn: "digits n = digits (n div 10) @ [digit_char (nat (n mod 10))]"
        by (subst digits.simps) simp
      from "1.prems"(3) dm dn have eq: "digits (m div 10) = digits (n div 10)"
        and last: "digit_char (nat (m mod 10)) = digit_char (nat (n mod 10))"
        by simp_all
      from "1.IH"[OF False _ _ eq] "1.prems" have d: "m div 10 = n div 10"
        by simp
      from last have "nat (m mod 10) = nat (n mod 10)"
        by (intro digit_char_inj) simp_all
      then have "m mod 10 = n mod 10"
        by simp
      with d show ?thesis
        by (metis mult_div_mod_eq)
    qed
  qed
qed

lemma hd_digits: "0 \<le> n \<Longrightarrow> hd (digits n) \<noteq> CHR ''-''"
proof (induction n rule: digits.induct)
  case (1 n)
  show ?case
  proof (cases "n < 10")
    case True
    with "1.prems" show ?thesis
      by (subst digits.simps) (simp add: digit_char_not_minus)
  next
    case False
    with "1.IH" "1.prems" have "hd (digits (n div 10)) \<noteq> CHR ''-''"
      by simp
    with False show ?thesis
      by (subst digits.simps) (simp add: digits_nonempty)
  qed
qed

lemma numToString_inj: "numToString a = numToString b \<Longrightarrow> a = b"
proof -
  assume eq: "numToString a = numToString b"
  consider "a < 0" "b < 0" | "a < 0" "0 \<le> b" | "0 \<le> a" "b < 0" | "0 \<le> a" "0 \<le> b"
    by linarith
  then show ?thesis
  proof cases
    case 1
    with eq have "digits (- a) = digits (- b)" by (simp add: numToString_def)
    with 1 have "- a = - b" by (intro digits_inj) simp_all
    then show ?thesis by simp
  next
    case 2
    with eq have "CHR ''-'' # digits (- a) = digits b" by (simp add: numToString_def)
    then have "hd (digits b) = CHR ''-''" by (metis list.sel(1))
    with hd_digits[OF 2(2)] show ?thesis by simp
  next
    case 3
    with eq have "digits a = CHR ''-'' # digits (- b)" by (simp add: numToString_def)
    then have "hd (digits a) = CHR ''-''" by simp
    with hd_digits[OF 3(1)] show ?thesis by simp
  next
    case 4
    with eq have "digits a = digits b" by (simp add: numToString_def)
    with 4 show ?thesis by (intro digits_inj)
  qed
qed

subsection \<open>The ids of the stored events\<close>

lemma id_newEventOf:
  "''id'' \<notin> fst ` set eventData \<Longrightarrow>
   getProp (newEventOf now eventData) ''id'' = Some (JStr (numToString now))"
  by (simp add: newEventOf_def update_conv' map_of_spread_notin)

lemma id_updatedEventOf: "getProp (updatedEventOf now eventId old updates) ''id'' = Some (JStr eventId)"
  by (simp add: updatedEventOf_def update_conv')

lemma eventIds_serve_Add:
  "eventIds (fst (snd (addEvent P now (Some (JObj eventData)) s))) = eventIds s @ [getProp (newEventOf now eventData) ''id'']"
  by (simp add: eventIds_def events_addEvent)

lemma eventIds_serve_Update: "eventIds (fst (snd (updateEvent P now eventId updates s))) = eventIds s"
proof (cases "findIndex (hasId eventId) (events s)")
  case None
  then show ?thesis by (simp add: eventIds_def events_updateEvent)
next
  case (Some i)
  from findIndex_Some[OF Some] have "getProp (events s ! i) ''id'' = Some (JStr eventId)"
    and "i < length (events s)"
    by (simp_all add: hasId_def)
  then have "(map (\<lambda>e. getProp e ''id'') (events s))[i := Some (JStr eventId)]
               = map (\<lambda>e. getProp e ''id'') (events s)"
    by (metis list_update_id nth_map)
  then show ?thesis
    by (simp add: eventIds_def events_updateEvent Some map_update id_updatedEventOf)
qed

lemma eventIds_serve_Delete:
  "\<exists>i. eventIds (fst (snd (deleteEvent P now eventId s))) = take i (eventIds s) @ drop (Suc i) (eventIds s)
       \<or> eventIds (fst (snd (deleteEvent P now eventId s))) = eventIds s"
  by (cases "findIndex (hasId eventId) (events s)")
     (auto simp: eventIds_def events_deleteEvent take_map drop_map)

lemma distinct_take_drop:
  assumes "distinct xs"
  shows "distinct (take i xs @ drop (Suc i) xs)"
proof -
  from assms have "distinct (take i xs @ drop i xs)"
    by simp
  then have parts: "distinct (take i xs)" "distinct (drop i xs)"
    "set (take i xs) \<inter> set (drop i xs) = {}"
    by (simp_all only: distinct_append)
  have tl: "drop (Suc i) xs = tl (drop i xs)"
    by (simp add: drop_Suc tl_drop)
  have "set (tl (drop i xs)) \<subseteq> set (drop i xs)"
    by (cases "drop i xs") auto
  with parts show ?thesis
    unfolding tl by (auto simp: distinct_tl)
qed

lemma set_take_drop: "set (take i xs @ drop (Suc i) xs) \<subseteq> set xs"
  by (auto dest: in_set_takeD in_set_dropD)

text \<open>The ids held are the renderings of the clock readings of the additions so far.\<close>

lemma serve_ids:
  assumes "distinct (eventIds s)"
    and "set (eventIds s) \<subseteq> (\<lambda>t. Some (JStr (numToString t))) ` T"
    and "noIdGiven r"
    and "set (addTimes [r]) \<inter> T = {}"
  shows "distinct (eventIds (serve P s r))
       \<and> set (eventIds (serve P s r)) \<subseteq> (\<lambda>t. Some (JStr (numToString t))) ` (T \<union> set (addTimes [r]))"
proof (cases r)
  case (Add now eventData)
  with assms(3) have id: "getProp (newEventOf now eventData) ''id'' = Some (JStr (numToString now))"
    by (simp add: id_newEventOf)
  from assms(4) Add have "now \<notin> T" by simp
  with assms(2) have "Some (JStr (numToString now)) \<notin> set (eventIds s)"
    by (auto dest: numToString_inj)
  with assms(1,2) show ?thesis
    by (auto simp: Add eventIds_serve_Add id)
next
  case (Update now eventId updates)
  with assms(1,2) show ?thesis
    by (auto simp: eventIds_serve_Update)
next
  case (Delete now eventId)
  from eventIds_serve_Delete[of P now eventId s] obtain i where
    "eventIds (serve P s r) = take i (eventIds s) @ drop (Suc i) (eventIds s)
       \<or> eventIds (serve P s r) = eventIds s"
    unfolding Delete serve.simps by blast
  then show ?thesis
  proof
    assume e: "eventIds (serve P s r) = take i (eventIds s) @ drop (Suc i) (eventIds s)"
    have "set (eventIds (serve P s r)) \<subseteq> set (eventIds s)"
      unfolding e by (rule set_take_drop)
    with assms(2) have "set (eventIds (serve P s r)) \<subseteq> (\<lambda>t. Some (JStr (numToString t))) ` T"
      by blast
    moreover have "distinct (eventIds (serve P s r))"
      unfolding e by (rule distinct_take_drop[OF assms(1)])
    moreover have "addTimes [r] = []"
      by (simp add: Delete)
    ultimately show ?thesis
      by simp
  next
    assume "eventIds (serve P s r) = eventIds s"
    moreover have "addTimes [r] = []"
      by (simp add: Delete)
    ultimately show ?thesis
      using assms(1,2) by simp
  qed
qed

lemma serveAll_ids:
  assumes "distinct (eventIds s)"
    and "set (eventIds s) \<subseteq> (\<lambda>t. Some (JStr (numToString t))) ` T"
    and "\<forall>r\<in>set rs. noIdGiven r"
    and "distinct (addTimes rs)"
    and "set (addTimes rs) \<inter> T = {}"
  shows "distinct (eventIds (serveAll P s rs))
       \<and> set (eventIds (serveAll P s rs)) \<subseteq> (\<lambda>t. Some (JStr (numToString t))) ` (T \<union> set (addTimes rs))"
  using assms
proof (induction rs arbitrary: s T)
  case Nil
  then show ?case by (simp add: serveAll_def)
next
  case (Cons r rs)
  have split: "addTimes (r # rs) = addTimes [r] @ addTimes rs"
    by (cases r) simp_all
  from Cons.prems(4,5) have here: "set (addTimes [r]) \<inter> T = {}"
    and later: "distinct (addTimes rs)" "set (addTimes rs) \<inter> (T \<union> set (addTimes [r])) = {}"
    by (auto simp: split)
  from Cons.prems(3) have r: "noIdGiven r" and rs: "\<forall>r\<in>set rs. noIdGiven r"
    by simp_all
  from serve_ids[OF Cons.prems(1,2) r here, of P]
  have step: "distinct (eventIds (serve P s r))"
    "set (eventIds (serve P s r)) \<subseteq> (\<lambda>t. Some (JStr (numToString t))) ` (T \<union> set (addTimes [r]))"
    by simp_all
  from Cons.IH[OF step rs later]
  show ?case
    by (simp add: serveAll_def split Un_assoc)
qed

lemma eventIds_emptyCache: "eventIds emptyCache = []"
  by (simp add: eventIds_def emptyCache_def)

lemma noId_examples: "''id'' \<notin> fst ` set syncFields" "''id'' \<notin> fst ` set lunchFields"
  by (simp_all add: syncFields_def lunchFields_def)

lemma numToString_examples:
  "numToString 1705000000000 = ''1705000000000''" "numToString 1705000000001 = ''1705000000001''"
  by code_simp+

lemma searchMatches_description:
  assumes "truthy (getProp e ''description'')" "\<not> isString (getProp e ''description'')"
    and "\<forall>t. getProp e ''title'' = Some (JStr t) \<longrightarrow> \<not> str_includes (toLowerCase P t) q"
  shows "searchMatches P q e = Inl TypeError"
proof (cases "isString (getProp e ''title'')")
  case False
  then show ?thesis by (rule searchMatches_title)
next
  case True
  then obtain t where t: "getProp e ''title'' = Some (JStr t)"
    by (cases "getProp e ''title''" rule: isString.cases) auto
  from assms(1,2) have "descriptionMatches P q e = Inl TypeError"
    by (cases "getProp e ''description''" rule: isString.cases)
       (auto simp: descriptionMatches_def split: json.splits)
  with t assms(3) show ?thesis
    by (simp add: searchMatches_def)
qed

lemma searchMatches_type:
  assumes "\<not> isString (getProp e ''type'')"
    and "\<forall>t. getProp e ''title'' = Some (JStr t) \<longrightarrow> \<not> str_includes (toLowerCase P t) q"
    and "\<forall>d. getProp e ''description'' = Some (JStr d) \<longrightarrow> \<not> str_includes (toLowerCase P d) q"
  shows "searchMatches P q e = Inl TypeError"
proof (cases "isString (getProp e ''title'')")
  case False
  then show ?thesis by (rule searchMatches_title)
next
  case True
  then obtain t where t: "getProp e ''title'' = Some (JStr t)"
    by (cases "getProp e ''title''" rule: isString.cases) auto
  from assms(1) have ty: "typeMatches P q e = Inl TypeError"
    by (cases "getProp e ''type''" rule: isString.cases) (auto simp: typeMatches_def split: json.splits)
  from assms(3) have "descriptionMatches P q e = Inl TypeError \<or> descriptionMatches P q e = Inr False"
    by (cases "getProp e ''description''" rule: isString.cases)
       (auto simp: descriptionMatches_def split: json.splits)
  with t ty assms(2) show ?thesis
    by (auto simp: searchMatches_def)
qed

lemma searchEvents_throws:
  assumes "\<exists>e\<in>set (events s). searchMatches P (toLowerCase P query) e = Inl TypeError"
  shows "searchEvents P query s = Inl TypeError"
proof -
  have "\<forall>e\<in>set (events s). searchMatches P (toLowerCase P query) e \<noteq> Inl RangeError"
    using searchMatches_error by fastforce
  with assms show ?thesis
    unfolding searchEvents_def by (rule filterE_Inl)
qed




lemma triggerWebhooks_cong:
  "webhooks s' = webhooks s \<Longrightarrow>
   triggerWebhooks P now eventType data s' = triggerWebhooks P now eventType data s"
  by (simp add: triggerWebhooks_def)












section \<open>The claims\<close>




text \<open>
  C2. The specification wants the index and the store to agree after every history. They do
  not after an update that keeps the date: \<open>updateEvent\<close> puts the new event into the store
  and leaves the old one in the bucket.
\<close>

theorem updateEvent_leaves_stale_index_entry:
  "events (serveAll testPlatform emptyCache
             [Add 1705000000000 syncFields,
              Update 1705000000500 ''1705000000000'' [(''title'', JStr ''Sync v2'')]]) = [syncEventV2]
   \<and> eventsByDate (serveAll testPlatform emptyCache
             [Add 1705000000000 syncFields,
              Update 1705000000500 ''1705000000000'' [(''title'', JStr ''Sync v2'')]]) ''2024-01-20''
       = Some [syncEvent]
   \<and> getProp syncEventV2 ''title'' = Some (JStr ''Sync v2'')
   \<and> getProp syncEvent ''title'' = Some (JStr ''Sync'')
   \<and> \<not> index_agrees (serveAll testPlatform emptyCache
             [Add 1705000000000 syncFields,
              Update 1705000000500 ''1705000000000'' [(''title'', JStr ''Sync v2'')]])"
  using syncEvent_neq
  by (auto simp: serveAll_add_update syncCache_def index_agrees_def dateKey_examples
        syncEvent_def syncEventV2_def)

theorem updateEvent_leaves_stale_index_entry_witness:
  "\<exists>e e' k. events (serveAll testPlatform emptyCache
             [Add 1705000000000 syncFields,
              Update 1705000000500 ''1705000000000'' [(''title'', JStr ''Sync v2'')]]) = [e]
     \<and> eventsByDate (serveAll testPlatform emptyCache
             [Add 1705000000000 syncFields,
              Update 1705000000500 ''1705000000000'' [(''title'', JStr ''Sync v2'')]]) k
         = Some [e']
     \<and> dateKey e = Inr k
     \<and> getProp e ''title'' \<noteq> getProp e' ''title''"
  using updateEvent_leaves_stale_index_entry
  by (auto simp: dateKey_examples)

text \<open>
  C3. The specification has every \<open>add\<close> assign an id that no held event has. \<open>addEvent\<close>
  takes the id from the clock, \<^verbatim>\<open>Date.now().toString()\<close>, and checks nothing: two additions
  within one millisecond (two \<^verbatim>\<open>POST\<close> operations of one batch, say) get the same id.
\<close>

theorem addEvent_same_millisecond_counterexample:
  "eventIds (serveAll testPlatform emptyCache
       [Add 1705000000000 syncFields, Add 1705000000000 lunchFields])
     = [Some (JStr ''1705000000000''), Some (JStr ''1705000000000'')]
   \<and> \<not> distinct (eventIds (serveAll testPlatform emptyCache
       [Add 1705000000000 syncFields, Add 1705000000000 lunchFields]))"
  by (simp add: serveAll_def eventIds_serve_Add id_newEventOf noId_examples eventIds_emptyCache
        numToString_examples)

text \<open>
  C3, as amended. The id that \<open>addEvent\<close> assigns is the decimal rendering of the clock
  reading. In a history that starts from the empty store, in which no two additions read the
  same millisecond and no added fields carry an id of their own, the ids of the stored events
  are pairwise distinct after every request, and an addition at a new clock reading gets an
  id that no held event has. (What an id among the fields does is left aside.)
\<close>

theorem ids_distinct_when_clock_advances:
  assumes "distinct (addTimes rs)" and "\<forall>r\<in>set rs. noIdGiven r"
  shows "distinct (eventIds (serveAll P emptyCache rs))
       \<and> (\<forall>now eventData.
            now \<notin> set (addTimes rs) \<and> ''id'' \<notin> fst ` set eventData \<longrightarrow>
            getProp (newEventOf now eventData) ''id'' = Some (JStr (numToString now))
          \<and> getProp (newEventOf now eventData) ''id'' \<notin> set (eventIds (serveAll P emptyCache rs)))"
proof -
  have start: "distinct (eventIds emptyCache)"
    "set (eventIds emptyCache) \<subseteq> (\<lambda>t. Some (JStr (numToString t))) ` {}"
    by (simp_all add: eventIds_emptyCache)
  from serveAll_ids[OF start assms(2,1), of P]
  have inv: "distinct (eventIds (serveAll P emptyCache rs))"
    "set (eventIds (serveAll P emptyCache rs))
       \<subseteq> (\<lambda>t. Some (JStr (numToString t))) ` set (addTimes rs)"
    by simp_all
  have "getProp (newEventOf now eventData) ''id'' = Some (JStr (numToString now))
          \<and> getProp (newEventOf now eventData) ''id'' \<notin> set (eventIds (serveAll P emptyCache rs))"
    if "now \<notin> set (addTimes rs)" "''id'' \<notin> fst ` set eventData" for now eventData
  proof -
    from that(2) have id: "getProp (newEventOf now eventData) ''id'' = Some (JStr (numToString now))"
      by (rule id_newEventOf)
    from that(1) inv(2) have "Some (JStr (numToString now)) \<notin> set (eventIds (serveAll P emptyCache rs))"
      by (auto dest: numToString_inj)
    with id show ?thesis by simp
  qed
  with inv(1) show ?thesis by blast
qed

theorem ids_distinct_when_clock_advances_witness:
  "distinct (addTimes [Add 1705000000000 syncFields, Add 1705000000001 lunchFields,
                       Update 1705000000500 ''1705000000000'' [(''id'', JStr ''1705000000001'')]])
   \<and> list_all noIdGiven [Add 1705000000000 syncFields, Add 1705000000001 lunchFields,
                       Update 1705000000500 ''1705000000000'' [(''id'', JStr ''1705000000001'')]]
   \<and> distinct (eventIds (serveAll testPlatform emptyCache
         [Add 1705000000000 syncFields, Add 1705000000001 lunchFields,
          Update 1705000000500 ''1705000000000'' [(''id'', JStr ''1705000000001'')]]))
   \<and> eventIds (serveAll testPlatform emptyCache
         [Add 1705000000000 syncFields, Add 1705000000001 lunchFields,
          Update 1705000000500 ''1705000000000'' [(''id'', JStr ''1705000000001'')]])
       = [Some (JStr ''1705000000000''), Some (JStr ''1705000000001'')]"
proof -
  let ?rs = "[Add 1705000000000 syncFields, Add 1705000000001 lunchFields,
              Update 1705000000500 ''1705000000000'' [(''id'', JStr ''1705000000001'')]]"
  have d: "distinct (addTimes ?rs)"
    by simp
  have n: "\<forall>r\<in>set ?rs. noIdGiven r"
    by (simp add: noId_examples)
  from ids_distinct_when_clock_advances[OF d n, of testPlatform]
  have "distinct (eventIds (serveAll testPlatform emptyCache ?rs))"
    by blast
  moreover have "eventIds (serveAll testPlatform emptyCache ?rs)
       = [Some (JStr ''1705000000000''), Some (JStr ''1705000000001'')]"
    by (simp add: serveAll_def eventIds_serve_Add eventIds_serve_Update id_newEventOf
          noId_examples eventIds_emptyCache numToString_examples)
  ultimately show ?thesis
    using d n by (simp add: list_all_iff)
qed

text \<open>
  C4. \<open>updateEvent\<close> of an id that no stored event has returns \<^verbatim>\<open>null\<close> (the route's answer
  404 ``Event not found'') and leaves the cache alone. Otherwise the first event with that id
  is replaced, in its place, by an event that has every property of the update, every other
  property of the old event, the time of the update as \<open>updatedAt\<close>, and the old id, also when
  the update has a property \<open>id\<close>. That event is returned, or the index update throws a
  \<^verbatim>\<open>TypeError\<close> after the store was changed; it is returned whenever the old and the new event
  can both be filed.
\<close>

theorem updateEvent_merges_fields:
  assumes "distinct (map fst updates)"
  shows "((\<forall>e\<in>set (events s). \<not> hasId eventId e) \<longrightarrow>
            updateEvent P now eventId updates s = (Inr None, s, Inr []))
       \<and> ((\<exists>e\<in>set (events s). hasId eventId e) \<longrightarrow>
            (\<exists>i old new.
               i < length (events s) \<and> old = events s ! i \<and> hasId eventId old
             \<and> (\<forall>j<i. \<not> hasId eventId (events s ! j))
             \<and> events (fst (snd (updateEvent P now eventId updates s))) = (events s)[i := new]
             \<and> (fst (updateEvent P now eventId updates s) = Inr (Some new)
                  \<or> fst (updateEvent P now eventId updates s) = Inl TypeError)
             \<and> (fileable old \<and> fileable new \<longrightarrow>
                  fst (updateEvent P now eventId updates s) = Inr (Some new))
             \<and> (\<forall>k. getProp new k =
                    (if k = ''updatedAt'' then Some (JStr (toISOString now))
                     else if k = ''id'' then getProp old ''id''
                     else case map_of updates k of None \<Rightarrow> getProp old k | Some v \<Rightarrow> Some v))))"
proof (intro conjI impI)
  assume "\<forall>e\<in>set (events s). \<not> hasId eventId e"
  then show "updateEvent P now eventId updates s = (Inr None, s, Inr [])"
    by (rule updateEvent_absent)
next
  assume "\<exists>e\<in>set (events s). hasId eventId e"
  then have "findIndex (hasId eventId) (events s) \<noteq> None"
    by (simp add: findIndex_None)
  then obtain i where i: "findIndex (hasId eventId) (events s) = Some i"
    by auto
  define old where "old = events s ! i"
  define new where "new = updatedEventOf now eventId old updates"
  from findIndex_Some[OF i] have len: "i < length (events s)" and has: "hasId eventId old"
    and first: "\<forall>j<i. \<not> hasId eventId (events s ! j)"
    by (simp_all add: old_def)
  have stored: "events (fst (snd (updateEvent P now eventId updates s))) = (events s)[i := new]"
    by (simp add: events_updateEvent i new_def old_def)
  have result: "fst (updateEvent P now eventId updates s) = Inr (Some new)
                \<or> fst (updateEvent P now eventId updates s) = Inl TypeError"
    using updateEvent_result[OF i] by (simp add: new_def old_def)
  have returned: "fileable old \<and> fileable new \<longrightarrow>
                  fst (updateEvent P now eventId updates s) = Inr (Some new)"
    using updateEvent_returns[OF i] by (simp add: new_def old_def)
  have fields: "\<forall>k. getProp new k =
                    (if k = ''updatedAt'' then Some (JStr (toISOString now))
                     else if k = ''id'' then getProp old ''id''
                     else case map_of updates k of None \<Rightarrow> getProp old k | Some v \<Rightarrow> Some v)"
    using has by (simp add: new_def getProp_updatedEventOf[OF assms has] hasId_def)
  from len has first stored result returned fields
  show "\<exists>i old new.
               i < length (events s) \<and> old = events s ! i \<and> hasId eventId old
             \<and> (\<forall>j<i. \<not> hasId eventId (events s ! j))
             \<and> events (fst (snd (updateEvent P now eventId updates s))) = (events s)[i := new]
             \<and> (fst (updateEvent P now eventId updates s) = Inr (Some new)
                  \<or> fst (updateEvent P now eventId updates s) = Inl TypeError)
             \<and> (fileable old \<and> fileable new \<longrightarrow>
                  fst (updateEvent P now eventId updates s) = Inr (Some new))
             \<and> (\<forall>k. getProp new k =
                    (if k = ''updatedAt'' then Some (JStr (toISOString now))
                     else if k = ''id'' then getProp old ''id''
                     else case map_of updates k of None \<Rightarrow> getProp old k | Some v \<Rightarrow> Some v))"
    unfolding old_def by blast
qed

theorem updateEvent_merges_fields_witness:
  "distinct (map fst [(''title'', JStr ''Sync v2''), (''id'', JStr ''7'')])
   \<and> (\<exists>e\<in>set (events syncCache). hasId ''1705000000000'' e)
   \<and> (\<exists>new.
         events (fst (snd (updateEvent testPlatform 1705000000500 ''1705000000000''
                            [(''title'', JStr ''Sync v2''), (''id'', JStr ''7'')] syncCache))) = [new]
       \<and> fst (updateEvent testPlatform 1705000000500 ''1705000000000''
                  [(''title'', JStr ''Sync v2''), (''id'', JStr ''7'')] syncCache) = Inr (Some new)
       \<and> getProp new ''title'' = Some (JStr ''Sync v2'')
       \<and> getProp new ''time'' = Some (JStr ''14:00'')
       \<and> getProp new ''id'' = Some (JStr ''1705000000000'')
       \<and> getProp new ''updatedAt'' = Some (JStr ''2024-01-11T19:06:40.500Z''))
   \<and> updateEvent testPlatform 1705000000500 ''7''
         [(''title'', JStr ''Sync v2''), (''id'', JStr ''7'')] syncCache = (Inr None, syncCache, Inr [])
   \<and> fileable syncEvent
   \<and> fst (updateEvent testPlatform 1705000000500 ''1705000000000''
            [(''date'', JObj [(''toString'', JNum 1)])] syncCache) = Inl TypeError"
proof -
  let ?U = "[(''title'', JStr ''Sync v2''), (''id'', JStr ''7'')]"
  have d: "distinct (map fst ?U)" by simp
  have ex: "\<exists>e\<in>set (events syncCache). hasId ''1705000000000'' e"
    by (simp add: syncCache_def syncEvent_def hasId_def)
  have no: "\<forall>e\<in>set (events syncCache). \<not> hasId ''7'' e"
    by (simp add: syncCache_def syncEvent_def hasId_def)
  have iso: "toISOString 1705000000500 = ''2024-01-11T19:06:40.500Z''"
    by code_simp
  have keys: "fileable syncEvent"
    by (simp add: fileable_def dateKey_syncEvent inheritedNames_def)
  note T = updateEvent_merges_fields[OF d, of syncCache _ testPlatform 1705000000500]
  from T[of "''1705000000000''"] ex obtain i old new where
    i: "i < length (events syncCache)" and old: "old = events syncCache ! i"
    and stored: "events (fst (snd (updateEvent testPlatform 1705000000500 ''1705000000000'' ?U
                   syncCache))) = (events syncCache)[i := new]"
    and returned: "fileable old \<and> fileable new \<longrightarrow>
        fst (updateEvent testPlatform 1705000000500 ''1705000000000'' ?U syncCache) = Inr (Some new)"
    and fields: "\<forall>k. getProp new k =
                    (if k = ''updatedAt'' then Some (JStr (toISOString 1705000000500))
                     else if k = ''id'' then getProp old ''id''
                     else case map_of ?U k of None \<Rightarrow> getProp old k | Some v \<Rightarrow> Some v)"
    by blast
  from i old have old': "old = syncEvent" and i0: "i = 0"
    by (simp_all add: syncCache_def)
  have date: "getProp new ''date'' = Some (JStr ''2024-01-20'')"
    using fields by (simp add: old' syncEvent_def)
  then have "fileable new"
    by (simp add: fileable_def dateKey_def toKey_def inheritedNames_def)
  with returned keys have r: "fst (updateEvent testPlatform 1705000000500 ''1705000000000'' ?U
      syncCache) = Inr (Some new)"
    by (simp add: old')
  have s: "events (fst (snd (updateEvent testPlatform 1705000000500 ''1705000000000'' ?U
                   syncCache))) = [new]"
    using stored by (simp add: i0 syncCache_def)
  have f: "getProp new ''title'' = Some (JStr ''Sync v2'')" "getProp new ''time'' = Some (JStr ''14:00'')"
    "getProp new ''id'' = Some (JStr ''1705000000000'')"
    "getProp new ''updatedAt'' = Some (JStr ''2024-01-11T19:06:40.500Z'')"
    using fields by (simp_all add: old' syncEvent_def iso)
  from T[of "''7''"] no have n: "updateEvent testPlatform 1705000000500 ''7'' ?U syncCache
      = (Inr None, syncCache, Inr [])"
    by blast
  have p: "fst (updateEvent testPlatform 1705000000500 ''1705000000000''
            [(''date'', JObj [(''toString'', JNum 1)])] syncCache) = Inl TypeError"
    by code_simp
  from d ex r s f n keys p show ?thesis by blast
qed

text \<open>
  C5. The specification has every listed event satisfy all the filters of the query. The
  handler applies the range and the type to the list it holds, but takes the search from
  \<open>searchEvents\<close>, which filters the whole store: with a search, the range and the type are
  forgotten. In a store with the meeting ``Sync'' and the social event ``Sync lunch'', the
  query for the type \<^verbatim>\<open>meeting\<close> and the text \<^verbatim>\<open>sync\<close> lists both, and counts both; without
  the search it lists the meeting alone.
\<close>

theorem listEvents_search_forgets_type:
  "listEvents testPlatform meetingSyncQuery twoCache =
     Inr \<lparr>l_events = [syncEvent, lunchEvent], l_total = 2, l_limit = Some 100,
          l_offset = Some 0, l_hasMore = False\<rparr>
   \<and> getProp lunchEvent ''type'' = Some (JStr ''social'')
   \<and> listEvents testPlatform (meetingSyncQuery\<lparr>q_search := None\<rparr>) twoCache =
     Inr \<lparr>l_events = [syncEvent], l_total = 1, l_limit = Some 100,
          l_offset = Some 0, l_hasMore = False\<rparr>
   \<and> twoCache = serveAll testPlatform emptyCache
                    [Add 1705000000000 syncFields, Add 1705000000001 lunchFields]"
proof -
  have a: "listEvents testPlatform meetingSyncQuery twoCache =
     Inr \<lparr>l_events = [syncEvent, lunchEvent], l_total = 2, l_limit = Some 100,
          l_offset = Some 0, l_hasMore = False\<rparr>"
    by code_simp
  have b: "getProp lunchEvent ''type'' = Some (JStr ''social'')"
    by code_simp
  have c: "listEvents testPlatform (meetingSyncQuery\<lparr>q_search := None\<rparr>) twoCache =
     Inr \<lparr>l_events = [syncEvent], l_total = 1, l_limit = Some 100,
          l_offset = Some 0, l_hasMore = False\<rparr>"
    by code_simp
  from a b c serveAll_two show ?thesis by simp
qed










text \<open>
  C10. The claim has \<open>searchEvents\<close> never throw as soon as every stored event has a string
  as title and as type. That is not enough: the guard of the description lets every truthy
  value through, and a truthy description that is no string has no \<^verbatim>\<open>toLowerCase\<close>.
\<close>

theorem searchEvents_number_description_counterexample:
  "isString (getProp numberedEvent ''title'') \<and> isString (getProp numberedEvent ''type'')
   \<and> searchEvents testPlatform ''standup'' (emptyCache\<lparr>events := [numberedEvent]\<rparr>) = Inl TypeError"
  by code_simp

text \<open>
  C10, as amended. When every stored event has a string as title and as type, and a
  description that is missing, falsy or a string, \<open>searchEvents\<close> returns for every query,
  and returns the events that its callback accepts. The title and the type are read without
  a guard, and the guard of the description stops the falsy values only. One stored event
  whose title is no string makes every search throw. One stored event whose type is no
  string makes a search throw when the query is found neither in its title nor in its
  description. One stored event whose description is truthy and no string makes a search
  throw when the query is not found in its title.
\<close>

theorem searchEvents_total:
  "((\<forall>e\<in>set (events s).
        isString (getProp e ''title'') \<and> isString (getProp e ''type'')
      \<and> (\<not> truthy (getProp e ''description'') \<or> isString (getProp e ''description''))) \<longrightarrow>
     searchEvents P query s =
       Inr (filter (\<lambda>e. searchMatches P (toLowerCase P query) e = Inr True) (events s)))
   \<and> ((\<exists>e\<in>set (events s). \<not> isString (getProp e ''title'')) \<longrightarrow>
      searchEvents P query s = Inl TypeError)
   \<and> ((\<exists>e\<in>set (events s).
          \<not> isString (getProp e ''type'')
        \<and> (\<forall>t. getProp e ''title'' = Some (JStr t) \<longrightarrow>
               \<not> str_includes (toLowerCase P t) (toLowerCase P query))
        \<and> (\<forall>d. getProp e ''description'' = Some (JStr d) \<longrightarrow>
               \<not> str_includes (toLowerCase P d) (toLowerCase P query))) \<longrightarrow>
      searchEvents P query s = Inl TypeError)
   \<and> ((\<exists>e\<in>set (events s).
          truthy (getProp e ''description'') \<and> \<not> isString (getProp e ''description'')
        \<and> (\<forall>t. getProp e ''title'' = Some (JStr t) \<longrightarrow>
               \<not> str_includes (toLowerCase P t) (toLowerCase P query))) \<longrightarrow>
      searchEvents P query s = Inl TypeError)"
proof (intro conjI impI)
  assume "\<forall>e\<in>set (events s).
        isString (getProp e ''title'') \<and> isString (getProp e ''type'')
      \<and> (\<not> truthy (getProp e ''description'') \<or> isString (getProp e ''description''))"
  then have "\<forall>e\<in>set (events s). \<exists>b. searchMatches P (toLowerCase P query) e = Inr b"
    using searchMatches_total by blast
  then show "searchEvents P query s =
       Inr (filter (\<lambda>e. searchMatches P (toLowerCase P query) e = Inr True) (events s))"
    unfolding searchEvents_def by (rule filterE_Inr)
next
  assume "\<exists>e\<in>set (events s). \<not> isString (getProp e ''title'')"
  then have "\<exists>e\<in>set (events s). searchMatches P (toLowerCase P query) e = Inl TypeError"
    using searchMatches_title by blast
  then show "searchEvents P query s = Inl TypeError"
    by (rule searchEvents_throws)
next
  assume "\<exists>e\<in>set (events s).
          \<not> isString (getProp e ''type'')
        \<and> (\<forall>t. getProp e ''title'' = Some (JStr t) \<longrightarrow>
               \<not> str_includes (toLowerCase P t) (toLowerCase P query))
        \<and> (\<forall>d. getProp e ''description'' = Some (JStr d) \<longrightarrow>
               \<not> str_includes (toLowerCase P d) (toLowerCase P query))"
  then have "\<exists>e\<in>set (events s). searchMatches P (toLowerCase P query) e = Inl TypeError"
    using searchMatches_type by blast
  then show "searchEvents P query s = Inl TypeError"
    by (rule searchEvents_throws)
next
  assume "\<exists>e\<in>set (events s).
          truthy (getProp e ''description'') \<and> \<not> isString (getProp e ''description'')
        \<and> (\<forall>t. getProp e ''title'' = Some (JStr t) \<longrightarrow>
               \<not> str_includes (toLowerCase P t) (toLowerCase P query))"
  then have "\<exists>e\<in>set (events s). searchMatches P (toLowerCase P query) e = Inl TypeError"
    using searchMatches_description by blast
  then show "searchEvents P query s = Inl TypeError"
    by (rule searchEvents_throws)
qed

theorem searchEvents_total_witness:
  "events syncCache = [syncEvent]
   \<and> isString (getProp syncEvent ''title'') \<and> isString (getProp syncEvent ''type'')
   \<and> \<not> truthy (getProp syncEvent ''description'')
   \<and> searchEvents testPlatform ''MEET'' syncCache = Inr [syncEvent]
   \<and> searchEvents testPlatform ''lunch'' syncCache = Inr []
   \<and> \<not> isString (getProp blankEvent ''title'')
   \<and> searchEvents testPlatform ''MEET'' (emptyCache\<lparr>events := [blankEvent]\<rparr>) = Inl TypeError
   \<and> getProp untypedEvent ''title'' = Some (JStr ''Retro'')
   \<and> getProp untypedEvent ''description'' = None
   \<and> \<not> isString (getProp untypedEvent ''type'')
   \<and> \<not> str_includes (toLowerCase testPlatform ''Retro'') (toLowerCase testPlatform ''MEET'')
   \<and> searchEvents testPlatform ''MEET'' (emptyCache\<lparr>events := [untypedEvent]\<rparr>) = Inl TypeError
   \<and> searchEvents testPlatform ''retro'' (emptyCache\<lparr>events := [untypedEvent]\<rparr>) = Inr [untypedEvent]
   \<and> getProp numberedEvent ''title'' = Some (JStr ''Retro'')
   \<and> truthy (getProp numberedEvent ''description'')
   \<and> \<not> isString (getProp numberedEvent ''description'')
   \<and> searchEvents testPlatform ''MEET'' (emptyCache\<lparr>events := [numberedEvent]\<rparr>) = Inl TypeError"
proof -
  have pre: "\<forall>e\<in>set (events syncCache).
        isString (getProp e ''title'') \<and> isString (getProp e ''type'')
      \<and> (\<not> truthy (getProp e ''description'') \<or> isString (getProp e ''description''))"
    by (simp add: syncCache_def syncEvent_def)
  have m: "searchMatches testPlatform (toLowerCase testPlatform ''MEET'') syncEvent = Inr True"
    "searchMatches testPlatform (toLowerCase testPlatform ''lunch'') syncEvent = Inr False"
    by code_simp+
  from searchEvents_total[of syncCache testPlatform "''MEET''"] pre m(1)
  have a: "searchEvents testPlatform ''MEET'' syncCache = Inr [syncEvent]"
    by (simp add: syncCache_def)
  from searchEvents_total[of syncCache testPlatform "''lunch''"] pre m(2)
  have b: "searchEvents testPlatform ''lunch'' syncCache = Inr []"
    by (simp add: syncCache_def)
  have bad: "\<not> isString (getProp blankEvent ''title'')"
    by (simp add: blankEvent_def)
  then have "\<exists>e\<in>set (events (emptyCache\<lparr>events := [blankEvent]\<rparr>)). \<not> isString (getProp e ''title'')"
    by simp
  with searchEvents_total[of "emptyCache\<lparr>events := [blankEvent]\<rparr>" testPlatform "''MEET''"]
  have c: "searchEvents testPlatform ''MEET'' (emptyCache\<lparr>events := [blankEvent]\<rparr>) = Inl TypeError"
    by blast
  have ev: "events syncCache = [syncEvent]"
    "isString (getProp syncEvent ''title'')" "isString (getProp syncEvent ''type'')"
    "\<not> truthy (getProp syncEvent ''description'')"
    by (simp_all add: syncCache_def syncEvent_def)
  have u: "getProp untypedEvent ''title'' = Some (JStr ''Retro'')"
    "getProp untypedEvent ''description'' = None"
    "\<not> isString (getProp untypedEvent ''type'')"
    by (simp_all add: untypedEvent_def)
  have nm: "\<not> str_includes (toLowerCase testPlatform ''Retro'') (toLowerCase testPlatform ''MEET'')"
    by code_simp
  from u nm have "\<exists>e\<in>set (events (emptyCache\<lparr>events := [untypedEvent]\<rparr>)).
          \<not> isString (getProp e ''type'')
        \<and> (\<forall>t. getProp e ''title'' = Some (JStr t) \<longrightarrow>
               \<not> str_includes (toLowerCase testPlatform t) (toLowerCase testPlatform ''MEET''))
        \<and> (\<forall>d. getProp e ''description'' = Some (JStr d) \<longrightarrow>
               \<not> str_includes (toLowerCase testPlatform d) (toLowerCase testPlatform ''MEET''))"
    by simp
  with searchEvents_total[of "emptyCache\<lparr>events := [untypedEvent]\<rparr>" testPlatform "''MEET''"]
  have d: "searchEvents testPlatform ''MEET'' (emptyCache\<lparr>events := [untypedEvent]\<rparr>) = Inl TypeError"
    by blast
  have r: "searchEvents testPlatform ''retro'' (emptyCache\<lparr>events := [untypedEvent]\<rparr>) = Inr [untypedEvent]"
    by code_simp
  have n: "getProp numberedEvent ''title'' = Some (JStr ''Retro'')"
    "truthy (getProp numberedEvent ''description'')"
    "\<not> isString (getProp numberedEvent ''description'')"
    by (simp_all add: numberedEvent_def)
  from n nm have "\<exists>e\<in>set (events (emptyCache\<lparr>events := [numberedEvent]\<rparr>)).
          truthy (getProp e ''description'') \<and> \<not> isString (getProp e ''description'')
        \<and> (\<forall>t. getProp e ''title'' = Some (JStr t) \<longrightarrow>
               \<not> str_includes (toLowerCase testPlatform t) (toLowerCase testPlatform ''MEET''))"
    by simp
  with searchEvents_total[of "emptyCache\<lparr>events := [numberedEvent]\<rparr>" testPlatform "''MEET''"]
  have f: "searchEvents testPlatform ''MEET'' (emptyCache\<lparr>events := [numberedEvent]\<rparr>) = Inl TypeError"
    by blast
  from ev a b bad c u nm d r n f show ?thesis by blast
qed

end
